theory Spec2Isabelle
  imports Complex_Main
begin

section \<open>Data model\<close>

text \<open>
  Modelled from the spec: the type declarations of \<^verbatim>\<open>DataModel.ts\<close> and the error
  classes of \<^verbatim>\<open>Errors.ts\<close> are not among the sources. The types below have the fields
  that the specification's data model lists and that \<^verbatim>\<open>ServerRoom.ts\<close> reads and writes.
  A user id is a non-negative integer, a \<^verbatim>\<open>DateTime\<close> is its number of milliseconds
  (\<^verbatim>\<open>toMillis()\<close>), a socket is the number of its connection.
\<close>

datatype Color = White | Black

datatype GameStatus = NotStarted | InProgress | Finished

datatype GameResolution = Checkmate | Stalemate | Draw | GiveUp | OutOfTime | PlayerQuit

type_synonym Socket = nat

type_synonym DateTime = int

record User =
  userId :: nat

record MemberState =
  connected :: bool
  isPlayer :: bool
  color :: "Color option"

record Member =
  user :: User
  state :: MemberState

text \<open>
  \<^verbatim>\<open>initialTime\<close> and \<^verbatim>\<open>timerIncrement\<close> are seconds. The source reads them as
  \<^verbatim>\<open>initialTime!\<close> and \<^verbatim>\<open>timerIncrement!\<close> when the timer is enabled, and as
  \<^verbatim>\<open>initialTime || 0\<close> when a game is saved; an absent value is the number 0 here.
\<close>

record GameRules =
  timer :: bool
  initialTime :: int
  timerIncrement :: int
  hostPreferredColor :: "Color option"

record Move =
  move_from :: string
  move_to :: string
  promotion :: "string option"

record TimerState =
  whiteTimeLeft :: int
  blackTimeLeft :: int

record GameState =
  gs_status :: GameStatus
  gs_resolution :: "GameResolution option"
  gs_winnerID :: "nat option"
  gs_turn :: Color
  gs_pgn :: string
  gs_timer :: "TimerState option"

record RoomDTO =
  dto_id :: string
  dto_members :: "Member list"
  dto_hostID :: nat
  dto_createdTimestamp :: rat
  dto_gameRules :: GameRules
  dto_gameState :: GameState

text \<open>The events a room sends to a socket (\<^verbatim>\<open>ServerToClientEvents\<close>).\<close>

datatype ServerToClientEvent =
    Init RoomDTO nat
  | MemberUpdate nat MemberState
  | MemberJoin Member
  | MemberLeave nat
  | GameStart
  | MoveMade Move "TimerState option"
  | GameEnd "GameResolution option" "nat option" "TimerState option"

text \<open>The events a room emits to its owner (\<^verbatim>\<open>ServerRoomEvents\<close>).\<close>

datatype ServerRoomEvent = ConnectedUsersChange | GameStatusChange | Destroy

text \<open>The handlers a room registers on a socket with \<^verbatim>\<open>socket.on\<close>.\<close>

datatype Listener = OnDisconnect nat | OnMakeMove "Color option" | OnGiveUp "Color option"

text \<open>
  What a handler throws. \<^verbatim>\<open>TypeError\<close> is what the runtime throws when a property of
  \<^verbatim>\<open>undefined\<close> or \<^verbatim>\<open>null\<close> is read; \<^verbatim>\<open>NotFinishedError\<close> is the
  \<^verbatim>\<open>Error("Game is not finished yet")\<close> of \<^verbatim>\<open>saveGame\<close>; \<^verbatim>\<open>ChessMoveError\<close> is the
  rules library refusing a move.
\<close>

datatype Error =
  AlreadyConnectedError | IllegalMoveError | NotFinishedError | TypeError | ChessMoveError

subsection \<open>PausableTimer\<close>

text \<open>
  Modelled from the spec: the class \<^verbatim>\<open>PausableTimer\<close> (\<^verbatim>\<open>PausableTimer.ts\<close>) is not among
  the sources. The specification gives its contract: \<^verbatim>\<open>start\<close> begins or resumes the
  countdown, taking a new remaining time when a duration is given, and does nothing on a
  running timer; \<^verbatim>\<open>stop\<close> cancels the countdown; \<^verbatim>\<open>pause\<close> freezes the remaining time
  and is safe on a timer that is not running; \<^verbatim>\<open>addTime\<close> adjusts the remaining time,
  running or not; \<^verbatim>\<open>isGoing\<close> tells whether the timer is counting down; at expiry the
  callback fires once and the timer is inert until it is started again.
  The passing of time is not part of the state: the expiry of a running timer is an event
  of its own (see \<open>step\<close> below), and \<^verbatim>\<open>timeLeft\<close> is the remaining time as of the last
  operation on the timer.
\<close>

record PausableTimer =
  isGoing :: bool
  timeLeft :: int

text \<open>
  Modelled from the spec: \<^verbatim>\<open>new PausableTimer(callback, durationMillis?)\<close>, a timer that
  is not running; the callback is the handler that the expiry event of \<open>step\<close> runs.
\<close>

definition newPausableTimer :: "int option \<Rightarrow> PausableTimer" where
  "newPausableTimer duration =
     \<lparr>isGoing = False, timeLeft = (case duration of None \<Rightarrow> 0 | Some d \<Rightarrow> d)\<rparr>"

text \<open>
  Modelled from the spec: \<^verbatim>\<open>start(durationMillis?)\<close> begins or resumes the countdown,
  from the duration when one is given, and is a no-op on a running timer.
\<close>

definition start :: "int option \<Rightarrow> PausableTimer \<Rightarrow> PausableTimer" where
  "start duration t =
     (if isGoing t then t
      else t\<lparr>isGoing := True,
              timeLeft := (case duration of None \<Rightarrow> timeLeft t | Some d \<Rightarrow> d)\<rparr>)"

text \<open>Modelled from the spec: \<^verbatim>\<open>stop()\<close> cancels the countdown.\<close>

definition stop :: "PausableTimer \<Rightarrow> PausableTimer" where
  "stop t = t\<lparr>isGoing := False\<rparr>"

text \<open>Modelled from the spec: \<^verbatim>\<open>pause()\<close> freezes the remaining time.\<close>

definition pause :: "PausableTimer \<Rightarrow> PausableTimer" where
  "pause t = t\<lparr>isGoing := False\<rparr>"

text \<open>Modelled from the spec: \<^verbatim>\<open>addTime(deltaMillis)\<close> adjusts the remaining time.\<close>

definition addTime :: "int \<Rightarrow> PausableTimer \<Rightarrow> PausableTimer" where
  "addTime delta t = t\<lparr>timeLeft := timeLeft t + delta\<rparr>"

text \<open>
  Modelled from the spec: the remaining time has reached zero; the timer is inert until
  it is started again.
\<close>

definition expire :: "PausableTimer \<Rightarrow> PausableTimer" where
  "expire t = t\<lparr>isGoing := False, timeLeft := 0\<rparr>"

subsection \<open>Sessions, collaborators and the room\<close>

record MemberSession =
  member :: Member
  socket :: "Socket option"
  joined :: DateTime
  disconnectTimer :: "PausableTimer option"

text \<open>
  The object \<^verbatim>\<open>sessions: {[key: number]: MemberSession}\<close>. \<^verbatim>\<open>Object.values\<close> lists the
  values of integer keys in ascending key order, so the object is the list of its
  entries in that order; the key of an entry also stands for the identity of the
  session object, which the source mutates in place.
\<close>

type_synonym Sessions = "(nat \<times> MemberSession) list"

text \<open>
  What the room takes from outside: the rules library \<^verbatim>\<open>chess.js\<close> over its own
  position type \<open>'c\<close> (a move that the library refuses leaves the position as it was),
  and the values of \<^verbatim>\<open>config\<close>. The two timeouts are in seconds.
\<close>

record 'c Env =
  chess_new :: 'c
  chess_turn :: "'c \<Rightarrow> Color"
  chess_move :: "Move \<Rightarrow> 'c \<Rightarrow> 'c option"
  chess_isCheckmate :: "'c \<Rightarrow> bool"
  chess_isStalemate :: "'c \<Rightarrow> bool"
  chess_isDraw :: "'c \<Rightarrow> bool"
  chess_pgn :: "'c \<Rightarrow> string"
  inactivityTimeout :: int
  disconnectTimeout :: int
  fakeRoom_create :: bool
  fakeRoom_id :: string

definition InactivityTimeout :: "'c Env \<Rightarrow> int" where
  "InactivityTimeout E = inactivityTimeout E * 1000"

definition DisconnectTimeout :: "'c Env \<Rightarrow> int" where
  "DisconnectTimeout E = disconnectTimeout E * 1000"

text \<open>
  Modelled from the spec: \<^verbatim>\<open>Database.ts\<close> is not among the sources. The row is the
  object that \<^verbatim>\<open>ChessServerRoom.saveGame\<close> hands to \<^verbatim>\<open>PlayedGame.create\<close>; the call
  itself is recorded in the field \<open>played\<close> of the room.
\<close>

record PlayedGameRow =
  pg_id :: string
  pg_timerEnabled :: bool
  pg_timerInit :: int
  pg_timerIncrement :: int
  pg_pgn :: string
  pg_resolution :: "GameResolution option"
  pg_winner :: "Color option"
  pg_whitePlayerID :: "nat option"
  pg_blackPlayerID :: "nat option"

text \<open>
  A \<^verbatim>\<open>ChessServerRoom\<close>. The fields \<open>status\<close>, \<open>resolution\<close> and \<open>winnerID\<close> are those
  of the object \<^verbatim>\<open>_gameState\<close>; \<open>winnerId\<close> is the separate field of \<^verbatim>\<open>ServerRoom\<close>.
  The last four fields record what the room did to the outside: the events sent to
  sockets, the events emitted to the owner, the handlers registered on sockets, and
  the rows given to \<^verbatim>\<open>PlayedGame.create\<close>, each in order.
\<close>

record 'c Room =
  roomId :: string
  hostID :: nat
  createdDateTime :: DateTime
  gameRules :: GameRules
  isFake :: bool
  status :: GameStatus
  resolution :: "GameResolution option"
  winnerID :: "nat option"
  sessions :: Sessions
  winnerId :: nat
  inactivityTimer :: PausableTimer
  chess :: 'c
  whitePlayerID :: "nat option"
  blackPlayerID :: "nat option"
  whiteTimer :: "PausableTimer option"
  blackTimer :: "PausableTimer option"
  sent :: "(Socket \<times> ServerToClientEvent) list"
  emitted :: "ServerRoomEvent list"
  listeners :: "(Socket \<times> Listener) list"
  played :: "PlayedGameRow list"

text \<open>
  A handler returns the room as it left it, and the error it threw, if any: a throw
  does not undo the assignments made before it.
\<close>

type_synonym 'c Result = "Error option \<times> 'c Room"

definition thenE :: "'c Result \<Rightarrow> ('c Room \<Rightarrow> 'c Result) \<Rightarrow> 'c Result" where
  "thenE x f = (case x of (None, r) \<Rightarrow> f r | (Some e, r) \<Rightarrow> (Some e, r))"

section \<open>ServerRoom\<close>

subsection \<open>The session object\<close>

text \<open>
  \<^verbatim>\<open>this.sessions[k] = v\<close>: the value of an existing key is replaced where it stands, a
  new key takes its place in the ascending order.
\<close>

fun set_session :: "nat \<Rightarrow> MemberSession \<Rightarrow> Sessions \<Rightarrow> Sessions" where
  "set_session k v [] = [(k, v)]"
| "set_session k v ((k', v') # xs) =
     (if k = k' then (k, v) # xs
      else if k < k' then (k, v) # (k', v') # xs
      else (k', v') # set_session k v xs)"

text \<open>An assignment to a field of the session object \<^verbatim>\<open>this.sessions[k]\<close>.\<close>

definition update_session ::
  "nat \<Rightarrow> (MemberSession \<Rightarrow> MemberSession) \<Rightarrow> Sessions \<Rightarrow> Sessions" where
  "update_session k f xs = map (\<lambda>(k', s). if k' = k then (k', f s) else (k', s)) xs"

text \<open>\<^verbatim>\<open>delete this.sessions[k]\<close>.\<close>

definition delete_session :: "nat \<Rightarrow> Sessions \<Rightarrow> Sessions" where
  "delete_session k xs = filter (\<lambda>(k', s). k' \<noteq> k) xs"

text \<open>\<^verbatim>\<open>this.sessions[k]\<close>, undefined for a key that the object does not have.\<close>

definition get_session :: "'c Room \<Rightarrow> nat \<Rightarrow> MemberSession option" where
  "get_session r k = map_of (sessions r) k"

definition set_connected :: "bool \<Rightarrow> MemberSession \<Rightarrow> MemberSession" where
  "set_connected b s = s\<lparr>member := (member s)\<lparr>state := (state (member s))\<lparr>connected := b\<rparr>\<rparr>\<rparr>"

definition stopDisconnectTimer :: "MemberSession \<Rightarrow> MemberSession" where
  "stopDisconnectTimer s = s\<lparr>disconnectTimer := map_option stop (disconnectTimer s)\<rparr>"

text \<open>
  The loop over \<^verbatim>\<open>Object.values(this.sessions)\<close> that calls
  \<^verbatim>\<open>session.disconnectTimer?.stop()\<close>.
\<close>

definition stopDisconnectTimers :: "'c Room \<Rightarrow> 'c Room" where
  "stopDisconnectTimers r = r\<lparr>sessions := map (\<lambda>(k, s). (k, stopDisconnectTimer s)) (sessions r)\<rparr>"

subsection \<open>Getters, broadcast\<close>

definition connectedSessions :: "'c Room \<Rightarrow> (nat \<times> MemberSession) list" where
  "connectedSessions r = filter (\<lambda>(k, s). connected (state (member s))) (sessions r)"

definition connectedUsers :: "'c Room \<Rightarrow> User list" where
  "connectedUsers r = map (\<lambda>(k, s). user (member s)) (connectedSessions r)"

definition members :: "'c Room \<Rightarrow> Member list" where
  "members r = map (\<lambda>(k, s). member s) (sessions r)"

definition numberOfConnectedMembers :: "'c Room \<Rightarrow> nat" where
  "numberOfConnectedMembers r = length (connectedSessions r)"

definition isUserPresent :: "'c Room \<Rightarrow> nat \<Rightarrow> bool" where
  "isUserPresent r userID = (get_session r userID \<noteq> None)"

definition isUserConnected :: "'c Room \<Rightarrow> nat \<Rightarrow> bool" where
  "isUserConnected r userID =
     (case get_session r userID of None \<Rightarrow> False | Some s \<Rightarrow> connected (state (member s)))"

definition get_timer :: "'c Room \<Rightarrow> TimerState option" where
  "get_timer r =
     (case (whiteTimer r, blackTimer r) of
        (Some w, Some b) \<Rightarrow> Some \<lparr>whiteTimeLeft = timeLeft w, blackTimeLeft = timeLeft b\<rparr>
      | _ \<Rightarrow> None)"

definition gameState :: "'c Env \<Rightarrow> 'c Room \<Rightarrow> GameState" where
  "gameState E r =
     \<lparr>gs_status = status r, gs_resolution = resolution r, gs_winnerID = winnerID r,
      gs_turn = chess_turn E (chess r), gs_pgn = chess_pgn E (chess r),
      gs_timer = get_timer r\<rparr>"

definition dto :: "'c Env \<Rightarrow> 'c Room \<Rightarrow> RoomDTO" where
  "dto E r =
     \<lparr>dto_id = roomId r, dto_members = members r, dto_hostID = hostID r,
      dto_createdTimestamp = of_int (createdDateTime r) / 1000,
      dto_gameRules = gameRules r, dto_gameState = gameState E r\<rparr>"

definition emit :: "ServerRoomEvent \<Rightarrow> 'c Room \<Rightarrow> 'c Room" where
  "emit ev r = r\<lparr>emitted := emitted r @ [ev]\<rparr>"

definition socket_emit :: "Socket \<Rightarrow> ServerToClientEvent \<Rightarrow> 'c Room \<Rightarrow> 'c Room" where
  "socket_emit sock ev r = r\<lparr>sent := sent r @ [(sock, ev)]\<rparr>"

definition socket_on :: "Socket \<Rightarrow> Listener \<Rightarrow> 'c Room \<Rightarrow> 'c Room" where
  "socket_on sock l r = r\<lparr>listeners := listeners r @ [(sock, l)]\<rparr>"

definition recipients :: "(nat \<times> MemberSession) list \<Rightarrow> Socket list" where
  "recipients xs = List.map_filter (\<lambda>(k, s). socket s) xs"

definition broadcast :: "ServerToClientEvent \<Rightarrow> 'c Room \<Rightarrow> 'c Room" where
  "broadcast ev r = r\<lparr>sent := sent r @ map (\<lambda>sock. (sock, ev)) (recipients (sessions r))\<rparr>"

definition broadcastExcept :: "nat \<Rightarrow> ServerToClientEvent \<Rightarrow> 'c Room \<Rightarrow> 'c Room" where
  "broadcastExcept userID ev r =
     r\<lparr>sent := sent r @ map (\<lambda>sock. (sock, ev))
         (recipients (filter (\<lambda>(k, s). userId (user (member s)) \<noteq> userID) (sessions r)))\<rparr>"

subsection \<open>Persistence\<close>

definition PlayedGame_create :: "PlayedGameRow \<Rightarrow> 'c Room \<Rightarrow> 'c Room" where
  "PlayedGame_create row r = r\<lparr>played := played r @ [row]\<rparr>"

text \<open>
  \<^verbatim>\<open>ServerRoom.saveGame\<close>: throws unless the game is finished, returns at once in a fake
  room, and otherwise only writes a line to the log.
\<close>

definition super_saveGame :: "'c Room \<Rightarrow> 'c Result" where
  "super_saveGame r =
     (if status r \<noteq> Finished then (Some NotFinishedError, r)
      else if isFake r then (None, r)
      else (None, r))"

text \<open>
  \<^verbatim>\<open>ChessServerRoom.saveGame\<close>: awaits \<^verbatim>\<open>super.saveGame()\<close>, which rejects or resolves, and
  after it has resolved builds the row and calls \<^verbatim>\<open>PlayedGame.create\<close>.
\<close>

definition saveGame :: "'c Env \<Rightarrow> 'c Room \<Rightarrow> 'c Result" where
  "saveGame E r =
     thenE (super_saveGame r) (\<lambda>r.
       let gs = gameState E r;
           winner = (if gs_winnerID gs = whitePlayerID r then Some White
                     else if gs_winnerID gs = blackPlayerID r then Some Black
                     else None)
       in (None, PlayedGame_create
             \<lparr>pg_id = roomId r, pg_timerEnabled = timer (gameRules r),
              pg_timerInit = initialTime (gameRules r),
              pg_timerIncrement = timerIncrement (gameRules r),
              pg_pgn = gs_pgn gs, pg_resolution = gs_resolution gs, pg_winner = winner,
              pg_whitePlayerID = whitePlayerID r, pg_blackPlayerID = blackPlayerID r\<rparr> r))"

subsection \<open>Inactivity and disconnection\<close>

definition handleInactivityTimeout :: "'c Room \<Rightarrow> 'c Room" where
  "handleInactivityTimeout r = emit Destroy r"

definition checkInactivity :: "'c Env \<Rightarrow> 'c Room \<Rightarrow> 'c Room" where
  "checkInactivity E r =
     (if numberOfConnectedMembers r = 0 then
        (if status r = NotStarted
         then r\<lparr>inactivityTimer := start (Some (InactivityTimeout E)) (inactivityTimer r)\<rparr>
         else if status r = Finished then emit Destroy r
         else r)
      else r)"

text \<open>
  \<^verbatim>\<open>ServerRoom.handleDisconnectTimeout\<close>; the \<^verbatim>\<open>saveGame\<close> it awaits is the one of
  \<^verbatim>\<open>ChessServerRoom\<close>.
\<close>

definition super_handleDisconnectTimeout :: "'c Env \<Rightarrow> nat \<Rightarrow> 'c Room \<Rightarrow> 'c Result" where
  "super_handleDisconnectTimeout E userID r =
     saveGame E (emit GameStatusChange (stopDisconnectTimers (r\<lparr>status := Finished\<rparr>)))"

definition pauseClocks :: "'c Room \<Rightarrow> 'c Room" where
  "pauseClocks r =
     r\<lparr>whiteTimer := map_option pause (whiteTimer r),
       blackTimer := map_option pause (blackTimer r)\<rparr>"

text \<open>
  \<^verbatim>\<open>ChessServerRoom.handleDisconnectTimeout\<close> in two parts: what runs until the row has
  been handed to \<^verbatim>\<open>PlayedGame.create\<close>, and what runs once that promise has resolved.
\<close>

definition handleDisconnectTimeout_begin :: "'c Env \<Rightarrow> nat \<Rightarrow> 'c Room \<Rightarrow> 'c Result" where
  "handleDisconnectTimeout_begin E userID r =
     super_handleDisconnectTimeout E userID
       (r\<lparr>resolution := Some PlayerQuit,
          winnerID := (if Some userID = whitePlayerID r then blackPlayerID r
                       else whitePlayerID r)\<rparr>)"

definition handleDisconnectTimeout_resume :: "'c Room \<Rightarrow> 'c Room" where
  "handleDisconnectTimeout_resume r = pauseClocks r"

definition handleDisconnectTimeout :: "'c Env \<Rightarrow> nat \<Rightarrow> 'c Room \<Rightarrow> 'c Result" where
  "handleDisconnectTimeout E userID r =
     thenE (handleDisconnectTimeout_begin E userID r)
       (\<lambda>r. (None, handleDisconnectTimeout_resume r))"

definition handleDisconnect :: "'c Env \<Rightarrow> nat \<Rightarrow> 'c Room \<Rightarrow> 'c Result" where
  "handleDisconnect E userID r =
     (case get_session r userID of
        None \<Rightarrow> (Some TypeError, r)
      | Some s \<Rightarrow>
          let r1 =
            (if isPlayer (state (member s)) then
               let r2 = r\<lparr>sessions :=
                          update_session userID (\<lambda>s. (set_connected False s)\<lparr>socket := None\<rparr>)
                            (sessions r)\<rparr>;
                   r3 = broadcast (MemberUpdate userID (state (member (set_connected False s)))) r2
               in if status r3 = InProgress then
                    r3\<lparr>sessions :=
                         update_session userID
                           (\<lambda>s. s\<lparr>disconnectTimer :=
                                   Some (start (Some (DisconnectTimeout E)) (newPausableTimer None))\<rparr>)
                           (sessions r3)\<rparr>
                  else r3
             else broadcast (MemberLeave userID)
                    (r\<lparr>sessions := delete_session userID (sessions r)\<rparr>))
          in (None, checkInactivity E (emit ConnectedUsersChange r1)))"

subsection \<open>Admission\<close>

text \<open>
  \<^verbatim>\<open>ServerRoom.acceptConnection\<close>; \<open>now\<close> is the value of \<^verbatim>\<open>DateTime.now()\<close> at the call.
  The test \<^verbatim>\<open>isUserPresent(user.id)\<close> is the case distinction on the session.
\<close>

definition super_acceptConnection ::
  "'c Env \<Rightarrow> Socket \<Rightarrow> User \<Rightarrow> DateTime \<Rightarrow> 'c Room \<Rightarrow> 'c Result" where
  "super_acceptConnection E sock u now r =
     (if isUserConnected r (userId u) then (Some AlreadyConnectedError, r)
      else
        let r1 = (if isGoing (inactivityTimer r)
                  then r\<lparr>inactivityTimer := stop (inactivityTimer r)\<rparr> else r);
            r2 =
              (case get_session r1 (userId u) of
                 Some s \<Rightarrow>
                   let s' = set_connected True (s\<lparr>socket := Some sock\<rparr>);
                       r3 = r1\<lparr>sessions :=
                              update_session (userId u)
                                (\<lambda>s. set_connected True (s\<lparr>socket := Some sock\<rparr>)) (sessions r1)\<rparr>;
                       r4 = socket_emit sock (Init (dto E r3) (userId u)) r3
                   in broadcastExcept (userId u) (MemberUpdate (userId u) (state (member s'))) r4
               | None \<Rightarrow>
                   let s' = \<lparr>member = \<lparr>user = u,
                                        state = \<lparr>connected = True, isPlayer = False, color = None\<rparr>\<rparr>,
                             socket = Some sock, joined = now, disconnectTimer = None\<rparr>;
                       r3 = r1\<lparr>sessions := set_session (userId u) s' (sessions r1)\<rparr>;
                       r4 = socket_emit sock (Init (dto E r3) (userId u)) r3
                   in broadcastExcept (userId u) (MemberJoin (member s')) r4);
            r5 = r2\<lparr>sessions :=
                     update_session (userId u)
                       (\<lambda>s. case disconnectTimer s of
                               None \<Rightarrow> s
                             | Some t \<Rightarrow> s\<lparr>disconnectTimer := None\<rparr>)
                       (sessions r2)\<rparr>
        in (None, socket_on sock (OnDisconnect (userId u)) r5))"

section \<open>ChessServerRoom\<close>

definition swapColor :: "Color \<Rightarrow> Color" where
  "swapColor c = (if c = White then Black else White)"

text \<open>
  The constructor. \<open>rnd1\<close> and \<open>rnd2\<close> are the two values \<^verbatim>\<open>UID.rnd()\<close> returns (in
  \<^verbatim>\<open>ServerRoom\<close>'s constructor, whose id decides \<^verbatim>\<open>isFake\<close>, and in \<^verbatim>\<open>ChessServerRoom\<close>'s),
  \<open>now\<close> is \<^verbatim>\<open>DateTime.now()\<close> and \<open>rc\<close> is what \<^verbatim>\<open>randomColor()\<close> returns. An empty
  id string is falsy, like an absent one.
\<close>

definition ChessServerRoom_new ::
  "'c Env \<Rightarrow> User \<Rightarrow> GameRules \<Rightarrow> string option \<Rightarrow> string \<Rightarrow> string \<Rightarrow> DateTime \<Rightarrow> Color
     \<Rightarrow> 'c Room" where
  "ChessServerRoom_new E host rules ident rnd1 rnd2 now rc =
     (let given = (case ident of None \<Rightarrow> False | Some s \<Rightarrow> s \<noteq> []);
          id1 = (if given then the ident else rnd1);
          id2 = (if given then the ident else rnd2);
          hostColor = (case hostPreferredColor rules of Some c \<Rightarrow> c | None \<Rightarrow> rc)
      in \<lparr>roomId = id2,
          hostID = userId host,
          createdDateTime = now,
          gameRules = rules,
          isFake = (if fakeRoom_create E then id1 = fakeRoom_id E else False),
          status = NotStarted,
          resolution = None,
          winnerID = None,
          sessions = [(userId host,
             \<lparr>member = \<lparr>user = host,
                        state = \<lparr>connected = False, isPlayer = True, color = Some hostColor\<rparr>\<rparr>,
              socket = None, joined = now, disconnectTimer = None\<rparr>)],
          winnerId = 0,
          inactivityTimer = start (Some (InactivityTimeout E)) (newPausableTimer None),
          chess = chess_new E,
          whitePlayerID = (if hostColor = White then Some (userId host) else None),
          blackPlayerID = (if hostColor = White then None else Some (userId host)),
          whiteTimer = None,
          blackTimer = None,
          sent = [], emitted = [], listeners = [], played = []\<rparr>)"

text \<open>\<^verbatim>\<open>this.sessions[this.whitePlayerID!]\<close>: an undefined key finds nothing.\<close>

definition session_at :: "'c Room \<Rightarrow> nat option \<Rightarrow> MemberSession option" where
  "session_at r k = (case k of None \<Rightarrow> None | Some k \<Rightarrow> get_session r k)"

definition subscribeToEvents :: "MemberSession option \<Rightarrow> 'c Room \<Rightarrow> 'c Result" where
  "subscribeToEvents session r =
     (case session of
        None \<Rightarrow> (Some TypeError, r)
      | Some s \<Rightarrow>
          (case socket s of
             None \<Rightarrow> (Some TypeError, r)
           | Some sock \<Rightarrow>
               (None, socket_on sock (OnGiveUp (color (state (member s))))
                        (socket_on sock (OnMakeMove (color (state (member s)))) r))))"

text \<open>
  The candidates of \<^verbatim>\<open>selectOpponent\<close>: the connected sessions that are not players,
  sorted by \<^verbatim>\<open>b.joined.toMillis() - a.joined.toMillis()\<close>. \<^verbatim>\<open>Array.prototype.sort\<close> is
  stable, and so is \<open>sort_key\<close>.
\<close>

definition nonPlayerSessions :: "'c Room \<Rightarrow> (nat \<times> MemberSession) list" where
  "nonPlayerSessions r =
     sort_key (\<lambda>(k, s). - joined s)
       (filter (\<lambda>(k, s). \<not> isPlayer (state (member s))) (connectedSessions r))"

text \<open>
  \<^verbatim>\<open>swapColor(hostColor)\<close> where the color of the host may be undefined: the comparison
  with \<^verbatim>\<open>Color.White\<close> then fails and the result is \<^verbatim>\<open>Color.White\<close>.
\<close>

definition opponentColor :: "Color option \<Rightarrow> Color" where
  "opponentColor hostColor = (case hostColor of Some c \<Rightarrow> swapColor c | None \<Rightarrow> White)"

definition promote :: "Color \<Rightarrow> MemberSession \<Rightarrow> MemberSession" where
  "promote c s =
     s\<lparr>member := (member s)\<lparr>state := (state (member s))\<lparr>isPlayer := True, color := Some c\<rparr>\<rparr>\<rparr>"

text \<open>\<^verbatim>\<open>nonPlayerSessions.pop()\<close>: the last element, undefined for an empty array.\<close>

definition selectedSession :: "'c Room \<Rightarrow> (nat \<times> MemberSession) option" where
  "selectedSession r =
     (case nonPlayerSessions r of [] \<Rightarrow> None | x # xs \<Rightarrow> Some (last (x # xs)))"

definition selectOpponent :: "'c Room \<Rightarrow> 'c Result" where
  "selectOpponent r =
     (case get_session r (hostID r) of
        None \<Rightarrow> (Some TypeError, r)
      | Some h \<Rightarrow>
          (case selectedSession r of
             None \<Rightarrow> (Some TypeError, r)
           | Some (k, s) \<Rightarrow>
               let c = opponentColor (color (state (member h)));
                   r1 = r\<lparr>sessions := update_session k (promote c) (sessions r)\<rparr>;
                   r2 = (if c = White then r1\<lparr>whitePlayerID := Some (userId (user (member s)))\<rparr>
                         else r1\<lparr>blackPlayerID := Some (userId (user (member s)))\<rparr>)
               in (None, broadcast (MemberUpdate (userId (user (member s)))
                                      (state (member (promote c s)))) r2)))"

definition setUpGameBeforeStart :: "'c Env \<Rightarrow> 'c Room \<Rightarrow> 'c Result" where
  "setUpGameBeforeStart E r =
     thenE (selectOpponent r) (\<lambda>r.
     thenE (subscribeToEvents (session_at r (whitePlayerID r)) r) (\<lambda>r.
     thenE (subscribeToEvents (session_at r (blackPlayerID r)) r) (\<lambda>r.
       let r1 = r\<lparr>status := InProgress\<rparr>
       in (None,
           if timer (gameRules r1) then
             r1\<lparr>whiteTimer :=
                  Some (start None (newPausableTimer (Some (initialTime (gameRules r1) * 1000)))),
                blackTimer :=
                  Some (newPausableTimer (Some (initialTime (gameRules r1) * 1000)))\<rparr>
           else r1))))"

definition startGame :: "'c Env \<Rightarrow> 'c Room \<Rightarrow> 'c Result" where
  "startGame E r =
     thenE (setUpGameBeforeStart E r) (\<lambda>r.
       (None, emit GameStatusChange (broadcast GameStart r)))"

text \<open>
  \<^verbatim>\<open>ChessServerRoom.acceptConnection\<close>. The conjunction is evaluated from the left, so the
  session of the host is read only when the first two conjuncts hold.
\<close>

definition acceptConnection ::
  "'c Env \<Rightarrow> Socket \<Rightarrow> User \<Rightarrow> DateTime \<Rightarrow> 'c Room \<Rightarrow> 'c Result" where
  "acceptConnection E sock u now r =
     thenE (super_acceptConnection E sock u now r) (\<lambda>r.
     thenE
       (if status r = NotStarted \<and> 2 \<le> numberOfConnectedMembers r then
          (case get_session r (hostID r) of
             None \<Rightarrow> (Some TypeError, r)
           | Some h \<Rightarrow>
               if connected (state (member h)) then startGame E r else (None, r))
        else if status r = InProgress then
          (if Some (userId u) = whitePlayerID r \<or> Some (userId u) = blackPlayerID r
           then subscribeToEvents (get_session r (userId u)) r
           else (None, r))
        else (None, r))
       (\<lambda>r. (None, emit ConnectedUsersChange r)))"

subsection \<open>The end of a game\<close>

definition isFinishCond :: "'c Env \<Rightarrow> 'c Room \<Rightarrow> bool \<times> 'c Room" where
  "isFinishCond E r =
     (if chess_isCheckmate E (chess r) then
        (True, r\<lparr>resolution := Some Checkmate,
                 winnerID := (if chess_turn E (chess r) = White then blackPlayerID r
                              else whitePlayerID r)\<rparr>)
      else if chess_isStalemate E (chess r) then (True, r\<lparr>resolution := Some Stalemate\<rparr>)
      else if chess_isDraw E (chess r) then (True, r\<lparr>resolution := Some Draw\<rparr>)
      else (False, r))"

definition setWinnerId :: "nat option \<Rightarrow> 'c Room \<Rightarrow> 'c Room" where
  "setWinnerId ident r = (case ident of None \<Rightarrow> r | Some i \<Rightarrow> r\<lparr>winnerId := i\<rparr>)"

definition getWinnerId :: "'c Room \<Rightarrow> Error + User" where
  "getWinnerId r =
     (case get_session r (winnerId r) of
        None \<Rightarrow> Inl TypeError
      | Some s \<Rightarrow> Inr (user (member s)))"

text \<open>
  The third argument of \<^verbatim>\<open>gameEnd\<close>: \<^verbatim>\<open>this.timer\<close> when the rules enable the timer,
  no argument otherwise.
\<close>

definition gameEndTimer :: "'c Room \<Rightarrow> TimerState option" where
  "gameEndTimer r = (if timer (gameRules r) then get_timer r else None)"

text \<open>
  \<^verbatim>\<open>ServerRoom.checkGameEnd\<close>; \<^verbatim>\<open>if (winnerId)\<close> holds for a defined id other than 0.
\<close>

definition super_checkGameEnd :: "'c Env \<Rightarrow> 'c Room \<Rightarrow> 'c Result" where
  "super_checkGameEnd E r =
     (let (finished, r1) = isFinishCond E r
      in if \<not> finished then (None, r1)
         else
           let r2 = r1\<lparr>status := Finished\<rparr>;
               w = winnerID r2;
               r3 = broadcast (GameEnd (resolution r2) w (gameEndTimer r2)) r2;
               r4 = stopDisconnectTimers r3;
               r5 = (if w \<noteq> None \<and> w \<noteq> Some 0 then setWinnerId w r4 else r4);
               r6 = checkInactivity E (emit GameStatusChange r5)
           in saveGame E r6)"

definition checkGameEnd :: "'c Env \<Rightarrow> 'c Room \<Rightarrow> 'c Result" where
  "checkGameEnd E r = super_checkGameEnd E (pauseClocks r)"

subsection \<open>Moves, resignation, the clocks\<close>

text \<open>\<^verbatim>\<open>this.whiteTimer!.f()\<close> and \<^verbatim>\<open>this.blackTimer!.f()\<close>: a TypeError without the timer.\<close>

definition onWhiteTimer :: "(PausableTimer \<Rightarrow> PausableTimer) \<Rightarrow> 'c Room \<Rightarrow> 'c Result" where
  "onWhiteTimer f r =
     (case whiteTimer r of
        None \<Rightarrow> (Some TypeError, r)
      | Some t \<Rightarrow> (None, r\<lparr>whiteTimer := Some (f t)\<rparr>))"

definition onBlackTimer :: "(PausableTimer \<Rightarrow> PausableTimer) \<Rightarrow> 'c Room \<Rightarrow> 'c Result" where
  "onBlackTimer f r =
     (case blackTimer r of
        None \<Rightarrow> (Some TypeError, r)
      | Some t \<Rightarrow> (None, r\<lparr>blackTimer := Some (f t)\<rparr>))"

text \<open>The branch \<^verbatim>\<open>if (this.gameRules.timer) ... else ...\<close> of \<^verbatim>\<open>handleMove\<close>.\<close>

definition switchClocks :: "'c Env \<Rightarrow> Move \<Rightarrow> 'c Room \<Rightarrow> 'c Result" where
  "switchClocks E move r =
     (if timer (gameRules r) then
        thenE
          (if chess_turn E (chess r) = White then
             thenE (onWhiteTimer (start None) r) (\<lambda>r.
             thenE (onBlackTimer pause r) (\<lambda>r.
               onBlackTimer (addTime (timerIncrement (gameRules r) * 1000)) r))
           else
             thenE (onBlackTimer (start None) r) (\<lambda>r.
             thenE (onWhiteTimer pause r) (\<lambda>r.
               onWhiteTimer (addTime (timerIncrement (gameRules r) * 1000)) r)))
          (\<lambda>r. (None, broadcast (MoveMade move (get_timer r)) r))
      else (None, broadcast (MoveMade move None) r))"

text \<open>
  \<^verbatim>\<open>handleMove\<close>. The promise of \<^verbatim>\<open>checkGameEnd\<close> is not awaited, so nothing it rejects
  with reaches the caller.
\<close>

definition handleMove :: "'c Env \<Rightarrow> Move \<Rightarrow> Color \<Rightarrow> 'c Room \<Rightarrow> 'c Result" where
  "handleMove E move c r =
     (if status r \<noteq> InProgress then (Some IllegalMoveError, r)
      else if chess_turn E (chess r) \<noteq> c then (Some IllegalMoveError, r)
      else
        (case chess_move E move (chess r) of
           None \<Rightarrow> (Some ChessMoveError, r)
         | Some pos \<Rightarrow>
             thenE (switchClocks E move (r\<lparr>chess := pos\<rparr>)) (\<lambda>r.
               let (finished, r1) = isFinishCond E r
               in if finished then (None, snd (checkGameEnd E r1)) else (None, r1))))"

definition handleGiveUp :: "'c Env \<Rightarrow> Color \<Rightarrow> 'c Room \<Rightarrow> 'c Result" where
  "handleGiveUp E c r =
     (if status r \<noteq> InProgress then (None, r)
      else
        let r1 = r\<lparr>resolution := Some GiveUp,
                   winnerID := (if c = White then blackPlayerID r else whitePlayerID r)\<rparr>;
            r2 = stopDisconnectTimers (pauseClocks (r1\<lparr>status := Finished\<rparr>));
            r3 = broadcast (GameEnd (resolution r2) (winnerID r2) (gameEndTimer r2)) r2;
            r4 = checkInactivity E (emit GameStatusChange r3)
        in saveGame E r4)"

definition handleTimerOut :: "'c Env \<Rightarrow> Color \<Rightarrow> 'c Room \<Rightarrow> 'c Result" where
  "handleTimerOut E side r =
     thenE (onWhiteTimer stop r) (\<lambda>r.
     thenE (onBlackTimer stop r) (\<lambda>r.
       let r1 = stopDisconnectTimers r;
           r2 = r1\<lparr>resolution := Some OutOfTime,
                    winnerID := (if side = White then blackPlayerID r1 else whitePlayerID r1)\<rparr>;
           r3 = r2\<lparr>status := Finished\<rparr>;
           r4 = broadcast (GameEnd (resolution r3) (winnerID r3) (get_timer r3)) r3;
           r5 = checkInactivity E (emit GameStatusChange r4)
       in saveGame E r5))"

section \<open>The room as a transition system\<close>

text \<open>
  Everything that can happen to a room: the calls of the transport layer, the expiry of
  a running timer (a clock, a disconnect timer, the inactivity timer), and the
  resolution of the promise that \<^verbatim>\<open>handleDisconnectTimeout\<close> awaits. Each handler runs to
  its end before the next event; a handler that throws leaves the room as it was at the
  throw. A move or a resignation may arrive with either color at any time, and the
  continuation of \<^verbatim>\<open>handleDisconnectTimeout\<close> at any later event: the listeners that
  the room registered only narrow this down.
\<close>

datatype Event =
    Connect Socket User DateTime
  | Disconnect nat
  | MakeMove Move Color
  | Resign Color
  | ClockExpiry Color
  | DisconnectExpiry nat
  | SaveSettled
  | InactivityExpiry

definition clockExpiry :: "'c Env \<Rightarrow> Color \<Rightarrow> 'c Room \<Rightarrow> 'c Room" where
  "clockExpiry E side r =
     (case (if side = White then whiteTimer r else blackTimer r) of
        None \<Rightarrow> r
      | Some t \<Rightarrow>
          if isGoing t then
            snd (handleTimerOut E side
                   (if side = White then r\<lparr>whiteTimer := Some (expire t)\<rparr>
                    else r\<lparr>blackTimer := Some (expire t)\<rparr>))
          else r)"

definition disconnectExpiry :: "'c Env \<Rightarrow> nat \<Rightarrow> 'c Room \<Rightarrow> 'c Room" where
  "disconnectExpiry E userID r =
     (case get_session r userID of
        None \<Rightarrow> r
      | Some s \<Rightarrow>
          (case disconnectTimer s of
             None \<Rightarrow> r
           | Some t \<Rightarrow>
               if isGoing t then
                 snd (handleDisconnectTimeout_begin E userID
                        (r\<lparr>sessions :=
                             update_session userID (\<lambda>s. s\<lparr>disconnectTimer := Some (expire t)\<rparr>)
                               (sessions r)\<rparr>))
               else r))"

definition inactivityExpiry :: "'c Room \<Rightarrow> 'c Room" where
  "inactivityExpiry r =
     (if isGoing (inactivityTimer r)
      then handleInactivityTimeout (r\<lparr>inactivityTimer := expire (inactivityTimer r)\<rparr>)
      else r)"

fun step :: "'c Env \<Rightarrow> Event \<Rightarrow> 'c Room \<Rightarrow> 'c Room" where
  "step E (Connect sock u now) r = snd (acceptConnection E sock u now r)"
| "step E (Disconnect userID) r = snd (handleDisconnect E userID r)"
| "step E (MakeMove move c) r = snd (handleMove E move c r)"
| "step E (Resign c) r = snd (handleGiveUp E c r)"
| "step E (ClockExpiry side) r = clockExpiry E side r"
| "step E (DisconnectExpiry userID) r = disconnectExpiry E userID r"
| "step E SaveSettled r = handleDisconnectTimeout_resume r"
| "step E InactivityExpiry r = inactivityExpiry r"

fun run :: "'c Env \<Rightarrow> Event list \<Rightarrow> 'c Room \<Rightarrow> 'c Room" where
  "run E [] r = r"
| "run E (ev # evs) r = run E evs (step E ev r)"

section \<open>A rules oracle and rooms for the examples\<close>

text \<open>
  A position is the number of moves played; White moves at even positions. A move from
  a square to the same square is refused. The three arguments name the position, if
  any, at which the oracle reports checkmate, stalemate and a draw.
\<close>

definition exampleEnv :: "nat option \<Rightarrow> nat option \<Rightarrow> nat option \<Rightarrow> nat Env" where
  "exampleEnv mate stale draw =
     \<lparr>chess_new = 0,
      chess_turn = (\<lambda>n. if even n then White else Black),
      chess_move = (\<lambda>m n. if move_from m = move_to m then None else Some (Suc n)),
      chess_isCheckmate = (\<lambda>n. mate = Some n),
      chess_isStalemate = (\<lambda>n. stale = Some n),
      chess_isDraw = (\<lambda>n. draw = Some n),
      chess_pgn = (\<lambda>n. replicate n (CHR ''m'')),
      inactivityTimeout = 180,
      disconnectTimeout = 60,
      fakeRoom_create = True,
      fakeRoom_id = ''fake''\<rparr>"

definition e2e4 :: Move where
  "e2e4 = \<lparr>move_from = ''e2'', move_to = ''e4'', promotion = None\<rparr>"

definition e7e5 :: Move where
  "e7e5 = \<lparr>move_from = ''e7'', move_to = ''e5'', promotion = None\<rparr>"

definition timedRules :: GameRules where
  "timedRules =
     \<lparr>timer = True, initialTime = 300, timerIncrement = 5, hostPreferredColor = Some White\<rparr>"

text \<open>
  The room of host 1, who prefers White, with a clock of 300 seconds and an increment of
  5 seconds, and the same room under the id of the fake room.
\<close>

definition exampleRoom :: "nat Env \<Rightarrow> nat Room" where
  "exampleRoom E =
     ChessServerRoom_new E \<lparr>userId = 1\<rparr> timedRules (Some ''room'') ''r1'' ''r2'' 0 Black"

definition fakeRoom :: "nat Env \<Rightarrow> nat Room" where
  "fakeRoom E =
     ChessServerRoom_new E \<lparr>userId = 1\<rparr> timedRules (Some ''fake'') ''r1'' ''r2'' 0 Black"

text \<open>Users 2 and 3 join at times 10 and 20, before the host connects at time 30.\<close>

definition lobby :: "Event list" where
  "lobby = [Connect 12 \<lparr>userId = 2\<rparr> 10, Connect 13 \<lparr>userId = 3\<rparr> 20]"

definition kickoff :: "Event list" where
  "kickoff = lobby @ [Connect 11 \<lparr>userId = 1\<rparr> 30]"

text \<open>An oracle that never reports an end, and the room once the game has started.\<close>

definition noEnd :: "nat Env" where
  "noEnd = exampleEnv None None None"

definition startedRoom :: "nat Room" where
  "startedRoom = run noEnd kickoff (exampleRoom noEnd)"

section \<open>Notions for the properties\<close>

text \<open>A clock that exists and is counting down.\<close>
definition going :: "PausableTimer option \<Rightarrow> bool" where
  "going t = (case t of None \<Rightarrow> False | Some t \<Rightarrow> isGoing t)"

fun status_rank :: "GameStatus \<Rightarrow> nat" where
  "status_rank NotStarted = 0" | "status_rank InProgress = 1" | "status_rank Finished = 2"

definition noWinnerYet :: "'c Room \<Rightarrow> bool" where
  "noWinnerYet r = (status r = Finished \<or> (winnerID r = None \<and> winnerId r = 0))"

definition oneClock :: "'c Room \<Rightarrow> bool" where
  "oneClock r = (\<not> (going (whiteTimer r) \<and> going (blackTimer r)))"

text \<open>The game of a room: what the invariants are about.\<close>

definition game_eq :: "'c Room \<Rightarrow> 'c Room \<Rightarrow> bool" where
  "game_eq r r' =
     (status r' = status r \<and> resolution r' = resolution r \<and> winnerID r' = winnerID r \<and>
      winnerId r' = winnerId r \<and> chess r' = chess r \<and> gameRules r' = gameRules r \<and>
      whitePlayerID r' = whitePlayerID r \<and> blackPlayerID r' = blackPlayerID r \<and>
      whiteTimer r' = whiteTimer r \<and> blackTimer r' = blackTimer r)"

text \<open>
  What every handler keeps: the status does not go back, the rules stay, no winner is
  recorded before the game is finished, and the two clocks never run together.
\<close>

definition advances :: "'c Room \<Rightarrow> 'c Room \<Rightarrow> bool" where
  "advances r r' =
     (status_rank (status r) \<le> status_rank (status r') \<and>
      gameRules r' = gameRules r \<and>
      (noWinnerYet r \<longrightarrow> noWinnerYet r') \<and>
      (oneClock r \<longrightarrow> oneClock r'))"

text \<open>
  What the expiry of the disconnect timer of \<open>userID\<close> in room \<open>r\<close> leaves: a finished
  game that the player quit, won by the holder of the other color, and no disconnect
  timer counting down.
\<close>

definition quitBy :: "nat \<Rightarrow> 'c Room \<Rightarrow> 'c Room \<Rightarrow> bool" where
  "quitBy userID r r' =
     (status r' = Finished \<and> resolution r' = Some PlayerQuit \<and>
      winnerID r' = (if Some userID = whitePlayerID r then blackPlayerID r else whitePlayerID r) \<and>
      (\<forall>(k, s) \<in> set (sessions r'). \<not> going (disconnectTimer s)))"

text \<open>The started room after both players have lost their connections.\<close>

definition abandonedRoom :: "nat Room" where
  "abandonedRoom = run noEnd [Disconnect 2, Disconnect 1] startedRoom"

text \<open>
  The end of \<^verbatim>\<open>handleMove\<close>, \<^verbatim>\<open>if (this.isFinishCond()) this.checkGameEnd()\<close>, as a
  function of the room after the clocks have been switched.
\<close>

definition afterMove :: "'c Env \<Rightarrow> 'c Room \<Rightarrow> 'c Room" where
  "afterMove E r =
     (if fst (isFinishCond E r) then snd (checkGameEnd E (snd (isFinishCond E r)))
      else snd (isFinishCond E r))"

text \<open>
  An oracle that reports checkmate after the second move, one that reports stalemate
  after the first, and the lobby once the host has been admitted by
  \<^verbatim>\<open>ServerRoom.acceptConnection\<close>, before the game is started.
\<close>

definition mateEnv :: "nat Env" where
  "mateEnv = exampleEnv (Some 2) None None"

definition staleEnv :: "nat Env" where
  "staleEnv = exampleEnv None (Some 1) None"

definition readyRoom :: "nat Room" where
  "readyRoom =
     snd (super_acceptConnection noEnd 11 \<lparr>userId = 1\<rparr> 30 (run noEnd lobby (exampleRoom noEnd)))"

text \<open>An entry of the session object that \<^verbatim>\<open>selectOpponent\<close> may choose.\<close>

definition candidate :: "nat \<times> MemberSession \<Rightarrow> bool" where
  "candidate x = (connected (state (member (snd x))) \<and> \<not> isPlayer (state (member (snd x))))"

section \<open>Every handler advances the game\<close>

lemmas effect_defs =
  emit_def socket_emit_def socket_on_def broadcast_def broadcastExcept_def
  PlayedGame_create_def stopDisconnectTimers_def pauseClocks_def setWinnerId_def

lemmas timer_defs = start_def stop_def pause_def addTime_def expire_def newPausableTimer_def

lemma status_rank_le [simp]: "status_rank s \<le> 2"
  by (cases s) simp_all

lemma thenE_simps [simp]:
  "thenE (None, r) f = f r"
  "thenE (Some e, r) f = (Some e, r)"
  by (simp_all add: thenE_def)

lemma thenE_cases:
  "thenE x f = (case fst x of None \<Rightarrow> f (snd x) | Some e \<Rightarrow> x)"
  by (cases x) (auto simp: thenE_def split: option.splits)

lemma checkInactivity_game: "game_eq r (checkInactivity E r)"
  by (simp add: game_eq_def checkInactivity_def effect_defs)

lemma saveGame_game: "game_eq r (snd (saveGame E r))"
  by (simp add: game_eq_def saveGame_def super_saveGame_def effect_defs Let_def)

lemma advances_refl: "advances r r"
  by (simp add: advances_def)

lemma advances_trans: "advances r r' \<Longrightarrow> advances r' r'' \<Longrightarrow> advances r r''"
  by (auto simp: advances_def)

lemma game_eq_advances: "game_eq r r' \<Longrightarrow> advances r r'"
  by (simp add: game_eq_def advances_def noWinnerYet_def oneClock_def)

lemma handleGiveUp_advances: "advances r (snd (handleGiveUp E c r))"
  using saveGame_game[of _ E] checkInactivity_game[of _ E]
  by (auto simp add: handleGiveUp_def Let_def game_eq_def effect_defs advances_def
      noWinnerYet_def oneClock_def going_def timer_defs split: option.splits)

lemma super_acceptConnection_game: "game_eq r (snd (super_acceptConnection E sock u now r))"
  by (simp add: super_acceptConnection_def game_eq_def effect_defs Let_def split: option.splits)

lemma subscribeToEvents_game: "game_eq r (snd (subscribeToEvents s r))"
  by (simp add: subscribeToEvents_def game_eq_def effect_defs split: option.splits)

lemma selectOpponent_fields:
  "status (snd (selectOpponent r)) = status r"
  "gameRules (snd (selectOpponent r)) = gameRules r"
  "winnerID (snd (selectOpponent r)) = winnerID r"
  "winnerId (snd (selectOpponent r)) = winnerId r"
  "whiteTimer (snd (selectOpponent r)) = whiteTimer r"
  "blackTimer (snd (selectOpponent r)) = blackTimer r"
  by (simp_all add: selectOpponent_def effect_defs Let_def split: option.splits prod.splits)

lemma setUpGameBeforeStart_advances:
  "status r = NotStarted \<Longrightarrow> advances r (snd (setUpGameBeforeStart E r))"
  using subscribeToEvents_game[of "snd (selectOpponent r)"]
    subscribeToEvents_game[of "snd (subscribeToEvents
        (session_at (snd (selectOpponent r)) (whitePlayerID (snd (selectOpponent r))))
        (snd (selectOpponent r)))"]
  by (auto simp add: setUpGameBeforeStart_def thenE_cases Let_def selectOpponent_fields game_eq_def
      advances_def noWinnerYet_def oneClock_def going_def timer_defs
      split: option.splits)


lemma handleDisconnect_game: "game_eq r (snd (handleDisconnect E userID r))"
  using checkInactivity_game[of _ E]
  by (simp add: handleDisconnect_def game_eq_def effect_defs Let_def split: option.splits)

lemma handleDisconnectTimeout_begin_advances:
  "advances r (snd (handleDisconnectTimeout_begin E userID r))"
  using saveGame_game[of _ E]
  by (simp add: handleDisconnectTimeout_begin_def super_handleDisconnectTimeout_def game_eq_def
     effect_defs advances_def noWinnerYet_def oneClock_def)

lemma handleDisconnectTimeout_resume_advances:
  "advances r (handleDisconnectTimeout_resume r)"
  by (auto simp add: handleDisconnectTimeout_resume_def
     effect_defs advances_def noWinnerYet_def oneClock_def going_def timer_defs split: option.splits)

lemma inactivityExpiry_game: "game_eq r (inactivityExpiry r)"
  by (simp add: inactivityExpiry_def handleInactivityTimeout_def game_eq_def effect_defs)

lemma handleTimerOut_advances: "advances r (snd (handleTimerOut E side r))"
  using saveGame_game[of _ E] checkInactivity_game[of _ E]
  by (auto simp add: handleTimerOut_def onWhiteTimer_def onBlackTimer_def Let_def game_eq_def effect_defs advances_def
      noWinnerYet_def oneClock_def going_def timer_defs split: option.splits)


lemma startGame_advances:
  "status r = NotStarted \<Longrightarrow> advances r (snd (startGame E r))"
  using setUpGameBeforeStart_advances[of r E]
  by (auto simp add: startGame_def thenE_cases effect_defs advances_def noWinnerYet_def oneClock_def
      split: option.splits)

lemma acceptConnection_advances: "advances r (snd (acceptConnection E sock u now r))"
proof -
  let ?r1 = "snd (super_acceptConnection E sock u now r)"
  have a: "advances r ?r1"
    by (rule game_eq_advances[OF super_acceptConnection_game])
  have b: "advances ?r1 (snd (acceptConnection E sock u now r))"
    using startGame_advances[of ?r1 E] subscribeToEvents_game[of ?r1 "get_session ?r1 (userId u)"]
    by (auto simp add: acceptConnection_def thenE_cases effect_defs advances_def noWinnerYet_def
        oneClock_def game_eq_def split: option.splits)
  show ?thesis by (rule advances_trans[OF a b])
qed

lemma isFinishCond_fields:
  "status (snd (isFinishCond E r)) = status r"
  "gameRules (snd (isFinishCond E r)) = gameRules r"
  "winnerId (snd (isFinishCond E r)) = winnerId r"
  "chess (snd (isFinishCond E r)) = chess r"
  "whiteTimer (snd (isFinishCond E r)) = whiteTimer r"
  "blackTimer (snd (isFinishCond E r)) = blackTimer r"
  "whitePlayerID (snd (isFinishCond E r)) = whitePlayerID r"
  "blackPlayerID (snd (isFinishCond E r)) = blackPlayerID r"
  by (simp_all add: isFinishCond_def)

lemma isFinishCond_not: "\<not> fst (isFinishCond E r) \<Longrightarrow> snd (isFinishCond E r) = r"
  by (simp add: isFinishCond_def split: if_splits)

lemma isFinishCond_fst:
  "fst (isFinishCond E r) =
     (chess_isCheckmate E (chess r) \<or> chess_isStalemate E (chess r) \<or> chess_isDraw E (chess r))"
  by (simp add: isFinishCond_def)

lemma isFinishCond_idem:
  "isFinishCond E (snd (isFinishCond E r)) = isFinishCond E r"
  by (simp add: isFinishCond_def)

lemma super_checkGameEnd_finished:
  assumes "fst (isFinishCond E r)"
  shows "status (snd (super_checkGameEnd E r)) = Finished"
    and "gameRules (snd (super_checkGameEnd E r)) = gameRules r"
    and "resolution (snd (super_checkGameEnd E r)) = resolution (snd (isFinishCond E r))"
    and "winnerID (snd (super_checkGameEnd E r)) = winnerID (snd (isFinishCond E r))"
    and "whiteTimer (snd (super_checkGameEnd E r)) = whiteTimer r"
    and "blackTimer (snd (super_checkGameEnd E r)) = blackTimer r"
    and "winnerId (snd (super_checkGameEnd E r)) =
           (case winnerID (snd (isFinishCond E r)) of
              None \<Rightarrow> winnerId r
            | Some i \<Rightarrow> if i = 0 then winnerId r else i)"
  using assms saveGame_game[of _ E] checkInactivity_game[of _ E]
  by (auto simp add: super_checkGameEnd_def Let_def game_eq_def effect_defs isFinishCond_fields
      split_beta split: option.splits)


lemma checkGameEnd_finished:
  assumes "fst (isFinishCond E r)"
  shows "status (snd (checkGameEnd E r)) = Finished"
    and "gameRules (snd (checkGameEnd E r)) = gameRules r"
    and "\<not> going (whiteTimer (snd (checkGameEnd E r)))"
    and "\<not> going (blackTimer (snd (checkGameEnd E r)))"
proof -
  have f: "fst (isFinishCond E (pauseClocks r))"
    using assms by (simp add: isFinishCond_fst pauseClocks_def)
  show "status (snd (checkGameEnd E r)) = Finished"
    and "gameRules (snd (checkGameEnd E r)) = gameRules r"
    and "\<not> going (whiteTimer (snd (checkGameEnd E r)))"
    and "\<not> going (blackTimer (snd (checkGameEnd E r)))"
    unfolding checkGameEnd_def super_checkGameEnd_finished[OF f]
    by (auto simp add: pauseClocks_def going_def pause_def split: option.splits)
qed

lemma switchClocks_fields:
  "status (snd (switchClocks E move r)) = status r"
  "gameRules (snd (switchClocks E move r)) = gameRules r"
  "winnerID (snd (switchClocks E move r)) = winnerID r"
  "winnerId (snd (switchClocks E move r)) = winnerId r"
  "chess (snd (switchClocks E move r)) = chess r"
  by (simp_all add: switchClocks_def thenE_cases onWhiteTimer_def onBlackTimer_def effect_defs
      split: option.splits)

lemma switchClocks_oneClock: "oneClock r \<Longrightarrow> oneClock (snd (switchClocks E move r))"
  by (auto simp add: switchClocks_def thenE_cases onWhiteTimer_def onBlackTimer_def effect_defs
      oneClock_def going_def timer_defs split: option.splits)

lemma switchClocks_advances: "advances r (snd (switchClocks E move r))"
  using switchClocks_oneClock[of r E move]
  by (simp add: advances_def switchClocks_fields noWinnerYet_def)

lemma finish_advances:
  "advances r (if fst (isFinishCond E r) then snd (checkGameEnd E (snd (isFinishCond E r)))
               else snd (isFinishCond E r))"
proof (cases "fst (isFinishCond E r)")
  case True
  then have f: "fst (isFinishCond E (snd (isFinishCond E r)))"
    by (simp add: isFinishCond_idem)
  show ?thesis
    using True
    by (simp add: split_beta advances_def checkGameEnd_finished[OF f] isFinishCond_fields
        noWinnerYet_def oneClock_def)
next
  case False
  then show ?thesis
    by (simp add: split_beta isFinishCond_not advances_refl)
qed

lemma handleMove_advances: "advances r (snd (handleMove E move c r))"
proof (cases "status r = InProgress \<and> chess_turn E (chess r) = c")
  case False
  then show ?thesis by (auto simp: handleMove_def advances_refl)
next
  case True
  show ?thesis
  proof (cases "chess_move E move (chess r)")
    case None
    with True show ?thesis by (simp add: handleMove_def advances_refl)
  next
    case (Some pos)
    let ?r0 = "r\<lparr>chess := pos\<rparr>"
    let ?r1 = "snd (switchClocks E move ?r0)"
    have a: "advances r ?r0"
      by (simp add: advances_def noWinnerYet_def oneClock_def)
    have b: "advances ?r0 ?r1" by (rule switchClocks_advances)
    show ?thesis
    proof (cases "fst (switchClocks E move ?r0)")
      case None
      then have "snd (handleMove E move c r) =
          (if fst (isFinishCond E ?r1) then snd (checkGameEnd E (snd (isFinishCond E ?r1)))
           else snd (isFinishCond E ?r1))"
        using True Some by (simp add: handleMove_def thenE_cases split_beta)
      then show ?thesis
        using advances_trans[OF advances_trans[OF a b] finish_advances[of ?r1 E]] by simp
    next
      case (Some e)
      then have "snd (handleMove E move c r) = ?r1"
        using True \<open>chess_move E move (chess r) = Some pos\<close>
        by (simp add: handleMove_def thenE_cases)
      then show ?thesis using advances_trans[OF a b] by simp
    qed
  qed
qed

lemma clockExpiry_advances: "advances r (clockExpiry E side r)"
proof -
  have w: "advances r (r\<lparr>whiteTimer := Some (expire t)\<rparr>)" for t
    by (auto simp: advances_def noWinnerYet_def oneClock_def going_def expire_def)
  have b: "advances r (r\<lparr>blackTimer := Some (expire t)\<rparr>)" for t
    by (auto simp: advances_def noWinnerYet_def oneClock_def going_def expire_def)
  show ?thesis
    using advances_trans[OF w handleTimerOut_advances] advances_trans[OF b handleTimerOut_advances]
    by (simp add: clockExpiry_def advances_refl split: option.splits)
qed

lemma disconnectExpiry_advances: "advances r (disconnectExpiry E userID r)"
proof -
  have s: "advances r (r\<lparr>sessions := xs\<rparr>)" for xs
    by (simp add: advances_def noWinnerYet_def oneClock_def)
  show ?thesis
    using advances_trans[OF s handleDisconnectTimeout_begin_advances]
    by (simp add: disconnectExpiry_def advances_refl split: option.splits)
qed

lemma step_advances: "advances r (step E ev r)"
  by (cases ev)
    (simp_all add: acceptConnection_advances handleMove_advances handleGiveUp_advances
      clockExpiry_advances disconnectExpiry_advances handleDisconnectTimeout_resume_advances
      game_eq_advances[OF handleDisconnect_game] game_eq_advances[OF inactivityExpiry_game])

lemma run_advances: "advances r (run E evs r)"
proof (induction evs arbitrary: r)
  case Nil
  show ?case by (simp add: advances_refl)
next
  case (Cons ev evs)
  show ?case
    using advances_trans[OF step_advances Cons.IH] by simp
qed

section \<open>Admission of a connection\<close>

lemma thenE_error:
  assumes "fst x \<in> {None, Some e}" and "\<And>r. fst (f r) \<in> {None, Some e}"
  shows "fst (thenE x f) \<in> {None, Some e}"
  using assms by (cases x) (auto simp: thenE_def split: option.splits)

lemma subscribeToEvents_error: "fst (subscribeToEvents s r) \<in> {None, Some TypeError}"
  by (simp add: subscribeToEvents_def split: option.splits)

lemma selectOpponent_error: "fst (selectOpponent r) \<in> {None, Some TypeError}"
  by (simp add: selectOpponent_def Let_def split: option.splits prod.splits)

lemma setUpGameBeforeStart_error: "fst (setUpGameBeforeStart E r) \<in> {None, Some TypeError}"
  unfolding setUpGameBeforeStart_def
  by (intro thenE_error selectOpponent_error subscribeToEvents_error) (simp add: Let_def)

lemma startGame_error: "fst (startGame E r) \<in> {None, Some TypeError}"
  unfolding startGame_def
  by (intro thenE_error setUpGameBeforeStart_error) simp

lemma super_acceptConnection_error:
  "fst (super_acceptConnection E sock u now r) =
     (if isUserConnected r (userId u) then Some AlreadyConnectedError else None)"
  by (simp add: super_acceptConnection_def Let_def)

lemma super_acceptConnection_rejected:
  "isUserConnected r (userId u) \<Longrightarrow>
   super_acceptConnection E sock u now r = (Some AlreadyConnectedError, r)"
  by (simp add: super_acceptConnection_def)

text \<open>
  Claim C9. \<^verbatim>\<open>acceptConnection\<close> throws \<^verbatim>\<open>AlreadyConnectedError\<close> exactly when the user
  who connects has a session that is marked connected, and then the room is what it was:
  no session created or rebound, no timer stopped, nothing sent, nothing emitted, no
  handler registered.
\<close>

theorem acceptConnection_AlreadyConnectedError:
  "(fst (acceptConnection E sock u now r) = Some AlreadyConnectedError
      \<longleftrightarrow> isUserConnected r (userId u)) \<and>
   (isUserConnected r (userId u) \<longrightarrow> snd (acceptConnection E sock u now r) = r)"
proof (cases "isUserConnected r (userId u)")
  case True
  then show ?thesis
    by (simp add: acceptConnection_def super_acceptConnection_rejected)
next
  case False
  let ?x = "super_acceptConnection E sock u now r"
  have n: "fst ?x = None"
    using False by (simp add: super_acceptConnection_error)
  have "fst (acceptConnection E sock u now r) \<in> {None, Some TypeError}"
    unfolding acceptConnection_def
  proof (intro thenE_error)
    show "fst ?x \<in> {None, Some TypeError}" by (simp add: n)
  next
    fix r' :: "'a Room"
    show "fst (if status r' = NotStarted \<and> 2 \<le> numberOfConnectedMembers r' then
                 (case get_session r' (hostID r') of
                    None \<Rightarrow> (Some TypeError, r')
                  | Some h \<Rightarrow>
                      if connected (state (member h)) then startGame E r' else (None, r'))
               else if status r' = InProgress then
                 (if Some (userId u) = whitePlayerID r' \<or> Some (userId u) = blackPlayerID r'
                  then subscribeToEvents (get_session r' (userId u)) r'
                  else (None, r'))
               else (None, r')) \<in> {None, Some TypeError}"
      using startGame_error[of E r'] subscribeToEvents_error[of "get_session r' (userId u)" r']
      by (auto split: option.splits)
  next
    fix r' :: "'a Room"
    show "fst (None, emit ConnectedUsersChange r') \<in> {None, Some TypeError}" by simp
  qed
  then show ?thesis using False by auto
qed

theorem acceptConnection_AlreadyConnectedError_witness:
  "fst (acceptConnection noEnd 99 \<lparr>userId = 2\<rparr> 40 startedRoom) = Some AlreadyConnectedError \<and>
   snd (acceptConnection noEnd 99 \<lparr>userId = 2\<rparr> 40 startedRoom) = startedRoom \<and>
   fst (acceptConnection noEnd 14 \<lparr>userId = 4\<rparr> 40 startedRoom) \<noteq> Some AlreadyConnectedError"
proof -
  have c: "isUserConnected startedRoom (userId \<lparr>userId = 2\<rparr>)" by code_simp
  have d: "\<not> isUserConnected startedRoom (userId \<lparr>userId = 4\<rparr>)" by code_simp
  show ?thesis
    using acceptConnection_AlreadyConnectedError [of noEnd 99 "\<lparr>userId = 2\<rparr>" 40 startedRoom]
      acceptConnection_AlreadyConnectedError [of noEnd 14 "\<lparr>userId = 4\<rparr>" 40 startedRoom] c d
    by blast
qed

section \<open>Rejected moves\<close>

text \<open>
  Claim C6. A move that arrives while the game is not in progress, or from the color
  whose turn it is not, is rejected with \<^verbatim>\<open>IllegalMoveError\<close> and the room stays as it
  was: the position, both clocks and the list of sent events are those of before.
\<close>

theorem handleMove_rejects:
  assumes "status r \<noteq> InProgress \<or> chess_turn E (chess r) \<noteq> c"
  shows "fst (handleMove E move c r) = Some IllegalMoveError \<and>
         snd (handleMove E move c r) = r \<and>
         step E (MakeMove move c) r = r"
  using assms by (auto simp: handleMove_def)

theorem handleMove_rejects_witness:
  "fst (handleMove noEnd e7e5 Black startedRoom) = Some IllegalMoveError \<and>
   snd (handleMove noEnd e7e5 Black startedRoom) = startedRoom \<and>
   fst (handleMove noEnd e2e4 White (exampleRoom noEnd)) = Some IllegalMoveError \<and>
   snd (handleMove noEnd e2e4 White (exampleRoom noEnd)) = exampleRoom noEnd"
proof -
  have a: "chess_turn noEnd (chess startedRoom) \<noteq> Black" by code_simp
  have b: "status (exampleRoom noEnd) \<noteq> InProgress" by code_simp
  show ?thesis
    using handleMove_rejects [of startedRoom noEnd Black e7e5]
      handleMove_rejects [of "exampleRoom noEnd" noEnd White e2e4] a b
    by blast
qed

section \<open>Expiry of a disconnect timer\<close>

lemma stopDisconnectTimers_stopped:
  "(k, s) \<in> set (sessions (stopDisconnectTimers r)) \<Longrightarrow> \<not> going (disconnectTimer s)"
  by (auto simp: stopDisconnectTimers_def stopDisconnectTimer_def going_def stop_def
      split: option.splits)

lemma saveGame_sessions: "sessions (snd (saveGame E r)) = sessions r"
  by (simp add: saveGame_def super_saveGame_def effect_defs Let_def)

lemma saveGame_Finished: "status r = Finished \<Longrightarrow> fst (saveGame E r) = None"
  by (simp add: saveGame_def super_saveGame_def effect_defs Let_def)

lemma stopDisconnectTimer_stopped: "\<not> going (disconnectTimer (stopDisconnectTimer s))"
  by (simp add: stopDisconnectTimer_def going_def stop_def split: option.splits)

lemma handleDisconnectTimeout_begin_quitBy:
  "fst (handleDisconnectTimeout_begin E userID r) = None \<and>
   quitBy userID r (snd (handleDisconnectTimeout_begin E userID r))"
proof -
  let ?w = "if Some userID = whitePlayerID r then blackPlayerID r else whitePlayerID r"
  let ?r1 = "emit GameStatusChange (stopDisconnectTimers
               (r\<lparr>resolution := Some PlayerQuit, winnerID := ?w, status := Finished\<rparr>))"
  have eq: "handleDisconnectTimeout_begin E userID r = saveGame E ?r1"
    by (simp add: handleDisconnectTimeout_begin_def super_handleDisconnectTimeout_def)
  have f: "status ?r1 = Finished" "resolution ?r1 = Some PlayerQuit" "winnerID ?r1 = ?w"
    by (simp_all add: emit_def stopDisconnectTimers_def)
  have t: "\<forall>(k, s) \<in> set (sessions ?r1). \<not> going (disconnectTimer s)"
    by (auto simp: emit_def stopDisconnectTimers_def stopDisconnectTimer_stopped)
  show ?thesis
    unfolding eq quitBy_def
    using saveGame_game[of ?r1 E] f t
    by (simp add: saveGame_sessions saveGame_Finished game_eq_def)
qed

lemma handleDisconnectTimeout_quitBy:
  "fst (handleDisconnectTimeout E userID r) = None \<and>
   quitBy userID r (snd (handleDisconnectTimeout E userID r))"
  using handleDisconnectTimeout_begin_quitBy[of E userID r]
  by (auto simp add: handleDisconnectTimeout_def thenE_cases handleDisconnectTimeout_resume_def
      pauseClocks_def quitBy_def)

text \<open>
  Claim C5. When the disconnect timer of a player expires, the game is finished with
  resolution \<^verbatim>\<open>PlayerQuit\<close>, the winner is the other player, and no disconnect timer of
  the room is left counting down. This holds for the room as the expiry handler leaves
  it when it has handed the game to the database, and for the room after the whole
  handler.
\<close>

theorem handleDisconnectTimeout_ends_game:
  assumes "get_session r userID = Some s" and "disconnectTimer s = Some t" and "isGoing t"
    and "whitePlayerID r = Some w" and "blackPlayerID r = Some b" and "w \<noteq> b"
    and "userID = w \<or> userID = b"
  shows "\<forall>r' \<in> {step E (DisconnectExpiry userID) r, snd (handleDisconnectTimeout E userID r)}.
           status r' = Finished \<and> resolution r' = Some PlayerQuit \<and>
           winnerID r' = Some (if userID = w then b else w) \<and>
           (\<forall>(k, s') \<in> set (sessions r'). \<not> going (disconnectTimer s'))"
proof -
  let ?r0 = "r\<lparr>sessions :=
                 update_session userID (\<lambda>s. s\<lparr>disconnectTimer := Some (expire t)\<rparr>) (sessions r)\<rparr>"
  let ?P = "\<lambda>r'. status r' = Finished \<and> resolution r' = Some PlayerQuit \<and>
           winnerID r' = Some (if userID = w then b else w) \<and>
           (\<forall>(k, s') \<in> set (sessions r'). \<not> going (disconnectTimer s'))"
  have w: "(if Some userID = whitePlayerID r then blackPlayerID r else whitePlayerID r) =
           Some (if userID = w then b else w)"
    using assms(4-7) by auto
  have e: "disconnectExpiry E userID r = snd (handleDisconnectTimeout_begin E userID ?r0)"
    using assms(1-3) by (simp add: disconnectExpiry_def)
  have "quitBy userID ?r0 (disconnectExpiry E userID r)"
    unfolding e using handleDisconnectTimeout_begin_quitBy[of E userID ?r0] by blast
  then have A: "?P (step E (DisconnectExpiry userID) r)"
    using assms(4-7) by (auto simp add: quitBy_def)
  have "quitBy userID r (snd (handleDisconnectTimeout E userID r))"
    using handleDisconnectTimeout_quitBy[of E userID r] by blast
  then have B: "?P (snd (handleDisconnectTimeout E userID r))"
    using assms(4-7) by (auto simp add: quitBy_def)
  show ?thesis using A B by blast
qed

theorem handleDisconnectTimeout_ends_game_witness:
  "status (step noEnd (DisconnectExpiry 2) abandonedRoom) = Finished \<and>
   resolution (step noEnd (DisconnectExpiry 2) abandonedRoom) = Some PlayerQuit \<and>
   winnerID (step noEnd (DisconnectExpiry 2) abandonedRoom) = Some 1 \<and>
   status abandonedRoom = InProgress \<and>
   map (\<lambda>(k, s). (k, going (disconnectTimer s))) (sessions abandonedRoom) =
     [(1, True), (2, True), (3, False)] \<and>
   map (\<lambda>(k, s). (k, going (disconnectTimer s)))
     (sessions (step noEnd (DisconnectExpiry 2) abandonedRoom)) =
     [(1, False), (2, False), (3, False)]"
proof -
  let ?s = "the (get_session abandonedRoom 2)"
  let ?t = "the (disconnectTimer ?s)"
  have a: "get_session abandonedRoom 2 = Some ?s" by code_simp
  have b: "disconnectTimer ?s = Some ?t" by code_simp
  have c: "isGoing ?t" by code_simp
  have d: "whitePlayerID abandonedRoom = Some 1" "blackPlayerID abandonedRoom = Some 2"
    by code_simp+
  have e: "status abandonedRoom = InProgress" by code_simp
  have f: "map (\<lambda>(k, s). (k, going (disconnectTimer s))) (sessions abandonedRoom) =
     [(1, True), (2, True), (3, False)]" by code_simp
  have g: "map (\<lambda>(k, s). (k, going (disconnectTimer s)))
     (sessions (step noEnd (DisconnectExpiry 2) abandonedRoom)) =
     [(1, False), (2, False), (3, False)]" by code_simp
  show ?thesis
    using handleDisconnectTimeout_ends_game [OF a b c d, of noEnd] e f g by simp
qed

section \<open>Persistence in a fake room\<close>

lemma saveGame_writes:
  "status r = Finished \<Longrightarrow> length (played (snd (saveGame E r))) = Suc (length (played r))"
  by (simp add: saveGame_def super_saveGame_def effect_defs Let_def)

text \<open>
  Claim C2 says that a fake room never reaches \<^verbatim>\<open>PlayedGame.create\<close>. The early return
  for a fake room is in \<^verbatim>\<open>ServerRoom.saveGame\<close> and only ends that method:
  \<^verbatim>\<open>ChessServerRoom.saveGame\<close> goes on after it. In the room created under the id of the
  fake room, the resignation of White ends the game and one row is written.
\<close>

theorem saveGame_fake_room:
  "isFake (run noEnd kickoff (fakeRoom noEnd)) \<and>
   played (run noEnd kickoff (fakeRoom noEnd)) = [] \<and>
   status (run noEnd (kickoff @ [Resign White]) (fakeRoom noEnd)) = Finished \<and>
   played (run noEnd (kickoff @ [Resign White]) (fakeRoom noEnd)) =
     [\<lparr>pg_id = ''fake'', pg_timerEnabled = True, pg_timerInit = 300, pg_timerIncrement = 5,
       pg_pgn = [], pg_resolution = Some GiveUp, pg_winner = Some Black,
       pg_whitePlayerID = Some 1, pg_blackPlayerID = Some 2\<rparr>]"
  by code_simp

section \<open>The status of the game\<close>

text \<open>
  Claim C7. Whatever happens to a room, in any order, its status does not go back: a
  finished game stays finished, and a game in progress never returns to not started.
\<close>

theorem status_never_goes_back:
  "status_rank (status r) \<le> status_rank (status (run E evs r)) \<and>
   (status r = Finished \<longrightarrow> status (run E evs r) = Finished) \<and>
   (status r = InProgress \<longrightarrow> status (run E evs r) \<noteq> NotStarted)"
proof -
  have "status_rank (status r) \<le> status_rank (status (run E evs r))"
    using run_advances[of r E evs] by (simp add: advances_def)
  then show ?thesis
    by (cases "status r"; cases "status (run E evs r)") simp_all
qed

theorem status_never_goes_back_witness:
  "status (run noEnd [Resign White] startedRoom) = Finished \<and>
   status (run noEnd [Connect 15 \<lparr>userId = 5\<rparr> 50, MakeMove e2e4 White, Disconnect 1]
             (run noEnd [Resign White] startedRoom)) = Finished \<and>
   status startedRoom = InProgress \<and>
   status (run noEnd [Disconnect 3, Disconnect 2] startedRoom) \<noteq> NotStarted"
proof -
  have a: "status (run noEnd [Resign White] startedRoom) = Finished" by code_simp
  have b: "status startedRoom = InProgress" by code_simp
  show ?thesis
    using status_never_goes_back [of "run noEnd [Resign White] startedRoom" noEnd
        "[Connect 15 \<lparr>userId = 5\<rparr> 50, MakeMove e2e4 White, Disconnect 1]"]
      status_never_goes_back [of startedRoom noEnd "[Disconnect 3, Disconnect 2]"] a b
    by simp
qed

section \<open>Accepted moves and reachable rooms\<close>

lemma afterMove_advances: "advances r (afterMove E r)"
  by (simp add: afterMove_def finish_advances)

lemma handleMove_accepted:
  assumes "fst (handleMove E move c r) = None"
  obtains pos where "status r = InProgress" and "chess_turn E (chess r) = c"
    and "chess_move E move (chess r) = Some pos"
    and "fst (switchClocks E move (r\<lparr>chess := pos\<rparr>)) = None"
    and "snd (handleMove E move c r) = afterMove E (snd (switchClocks E move (r\<lparr>chess := pos\<rparr>)))"
proof -
  have s: "status r = InProgress" and t: "chess_turn E (chess r) = c"
    using assms by (auto simp: handleMove_def split: if_splits)
  obtain pos where p: "chess_move E move (chess r) = Some pos"
    using assms s t by (cases "chess_move E move (chess r)") (auto simp: handleMove_def)
  have n: "fst (switchClocks E move (r\<lparr>chess := pos\<rparr>)) = None"
    using assms s t p by (auto simp: handleMove_def thenE_cases split: option.splits)
  have "snd (handleMove E move c r) = afterMove E (snd (switchClocks E move (r\<lparr>chess := pos\<rparr>)))"
    using s t p n by (simp add: handleMove_def thenE_cases afterMove_def split_beta)
  with s t p n show thesis by (rule that)
qed

lemma isFinishCond_result:
  "winnerID (snd (isFinishCond E r)) =
     (if chess_isCheckmate E (chess r)
      then (if chess_turn E (chess r) = White then blackPlayerID r else whitePlayerID r)
      else winnerID r)"
  "resolution (snd (isFinishCond E r)) =
     (if chess_isCheckmate E (chess r) then Some Checkmate
      else if chess_isStalemate E (chess r) then Some Stalemate
      else if chess_isDraw E (chess r) then Some Draw
      else resolution r)"
  by (simp_all add: isFinishCond_def)

lemma checkInactivity_sessions: "sessions (checkInactivity E r) = sessions r"
  by (simp add: checkInactivity_def effect_defs)

lemma super_checkGameEnd_players:
  "chess (snd (super_checkGameEnd E r)) = chess r"
  "whitePlayerID (snd (super_checkGameEnd E r)) = whitePlayerID r"
  "blackPlayerID (snd (super_checkGameEnd E r)) = blackPlayerID r"
  using saveGame_game[of _ E] checkInactivity_game[of _ E]
  by (simp_all add: super_checkGameEnd_def Let_def game_eq_def effect_defs isFinishCond_fields
      split_beta split: option.splits)

lemma afterMove_players:
  "chess (afterMove E r) = chess r"
  "whitePlayerID (afterMove E r) = whitePlayerID r"
  "blackPlayerID (afterMove E r) = blackPlayerID r"
  by (simp_all add: afterMove_def checkGameEnd_def super_checkGameEnd_players isFinishCond_fields
      pauseClocks_def)

lemma afterMove_end:
  assumes "fst (isFinishCond E r)"
  shows "status (afterMove E r) = Finished"
    and "resolution (afterMove E r) = resolution (snd (isFinishCond E r))"
    and "winnerID (afterMove E r) = winnerID (snd (isFinishCond E r))"
    and "winnerId (afterMove E r) =
           (case winnerID (snd (isFinishCond E r)) of
              None \<Rightarrow> winnerId r
            | Some i \<Rightarrow> if i = 0 then winnerId r else i)"
proof -
  let ?x = "pauseClocks (snd (isFinishCond E r))"
  have f: "fst (isFinishCond E ?x)"
    using assms by (simp add: isFinishCond_fst pauseClocks_def isFinishCond_fields)
  have e: "afterMove E r = snd (super_checkGameEnd E ?x)"
    using assms by (simp add: afterMove_def checkGameEnd_def)
  have w: "winnerID (snd (isFinishCond E ?x)) = winnerID (snd (isFinishCond E r))"
    and v: "resolution (snd (isFinishCond E ?x)) = resolution (snd (isFinishCond E r))"
    by (simp_all add: isFinishCond_def pauseClocks_def)
  show "status (afterMove E r) = Finished"
    and "resolution (afterMove E r) = resolution (snd (isFinishCond E r))"
    and "winnerID (afterMove E r) = winnerID (snd (isFinishCond E r))"
    and "winnerId (afterMove E r) =
           (case winnerID (snd (isFinishCond E r)) of
              None \<Rightarrow> winnerId r
            | Some i \<Rightarrow> if i = 0 then winnerId r else i)"
    unfolding e super_checkGameEnd_finished[OF f] w v
    by (simp_all add: pauseClocks_def isFinishCond_fields split: option.splits)
qed

lemma new_room_fields:
  "noWinnerYet (ChessServerRoom_new E host rules ident rnd1 rnd2 now rc)"
  "oneClock (ChessServerRoom_new E host rules ident rnd1 rnd2 now rc)"
  "winnerId (ChessServerRoom_new E host rules ident rnd1 rnd2 now rc) = 0"
  by (simp_all add: ChessServerRoom_new_def Let_def noWinnerYet_def oneClock_def going_def)

lemma reachable_noWinnerYet:
  "noWinnerYet (run E evs (ChessServerRoom_new E host rules ident rnd1 rnd2 now rc))"
  using run_advances[of "ChessServerRoom_new E host rules ident rnd1 rnd2 now rc" E evs]
  by (simp add: advances_def new_room_fields)

lemma reachable_oneClock:
  "oneClock (run E evs (ChessServerRoom_new E host rules ident rnd1 rnd2 now rc))"
  using run_advances[of "ChessServerRoom_new E host rules ident rnd1 rnd2 now rc" E evs]
  by (simp add: advances_def new_room_fields)

section \<open>The two clocks\<close>

lemma switchClocks_accepted:
  assumes "fst (switchClocks E move r) = None" and "timer (gameRules r)"
  shows "going (whiteTimer (snd (switchClocks E move r))) = (chess_turn E (chess r) = White)"
    and "going (blackTimer (snd (switchClocks E move r))) = (chess_turn E (chess r) \<noteq> White)"
  using assms
  by (auto simp add: switchClocks_def thenE_cases onWhiteTimer_def onBlackTimer_def effect_defs
      going_def timer_defs split: option.splits if_splits)

lemma setUpGameBeforeStart_clocks:
  assumes "fst (setUpGameBeforeStart E r) = None" and "timer (gameRules r)"
  shows "going (whiteTimer (snd (setUpGameBeforeStart E r)))"
    and "\<not> going (blackTimer (snd (setUpGameBeforeStart E r)))"
  using assms subscribeToEvents_game[of "snd (selectOpponent r)"]
    subscribeToEvents_game[of "snd (subscribeToEvents
        (session_at (snd (selectOpponent r)) (whitePlayerID (snd (selectOpponent r))))
        (snd (selectOpponent r)))"]
  by (auto simp add: setUpGameBeforeStart_def thenE_cases Let_def selectOpponent_fields game_eq_def
      going_def timer_defs split: option.splits if_splits)

text \<open>
  Claim C8. In every room reached from a new room by any events, the white clock and the
  black clock are never both counting down; in particular not while the game is in
  progress with the timer enabled. The start of the game starts the white clock only,
  and every accepted move in a game with the timer leaves at most one clock counting
  down, whatever the clocks were before.
\<close>

theorem clocks_never_run_together:
  "\<not> (going (whiteTimer (run E evs (ChessServerRoom_new E host rules ident rnd1 rnd2 now rc))) \<and>
      going (blackTimer (run E evs (ChessServerRoom_new E host rules ident rnd1 rnd2 now rc)))) \<and>
   (fst (setUpGameBeforeStart E r) = None \<and> timer (gameRules r) \<longrightarrow>
      going (whiteTimer (snd (setUpGameBeforeStart E r))) \<and>
      \<not> going (blackTimer (snd (setUpGameBeforeStart E r)))) \<and>
   (fst (handleMove E move c r') = None \<and> timer (gameRules r') \<longrightarrow>
      \<not> (going (whiteTimer (snd (handleMove E move c r'))) \<and>
         going (blackTimer (snd (handleMove E move c r')))))"
proof (intro conjI impI)
  show "\<not> (going (whiteTimer (run E evs (ChessServerRoom_new E host rules ident rnd1 rnd2 now rc))) \<and>
      going (blackTimer (run E evs (ChessServerRoom_new E host rules ident rnd1 rnd2 now rc))))"
    using reachable_oneClock[of E evs host rules ident rnd1 rnd2 now rc]
    by (simp add: oneClock_def)
next
  assume "fst (setUpGameBeforeStart E r) = None \<and> timer (gameRules r)"
  then show "going (whiteTimer (snd (setUpGameBeforeStart E r)))"
    and "\<not> going (blackTimer (snd (setUpGameBeforeStart E r)))"
    using setUpGameBeforeStart_clocks[of E r] by simp_all
next
  assume a: "fst (handleMove E move c r') = None \<and> timer (gameRules r')"
  then obtain pos where
    n: "fst (switchClocks E move (r'\<lparr>chess := pos\<rparr>)) = None" and
    e: "snd (handleMove E move c r') = afterMove E (snd (switchClocks E move (r'\<lparr>chess := pos\<rparr>)))"
    using handleMove_accepted[of E move c r'] by blast
  have "oneClock (snd (switchClocks E move (r'\<lparr>chess := pos\<rparr>)))"
    using switchClocks_accepted[OF n] a by (simp add: oneClock_def)
  then have "oneClock (snd (handleMove E move c r'))"
    using afterMove_advances[of "snd (switchClocks E move (r'\<lparr>chess := pos\<rparr>))" E] e
    by (simp add: advances_def)
  then show "\<not> (going (whiteTimer (snd (handleMove E move c r'))) \<and>
         going (blackTimer (snd (handleMove E move c r'))))"
    by (simp add: oneClock_def)
qed

theorem clocks_never_run_together_witness:
  "going (blackTimer (run noEnd (kickoff @ [MakeMove e2e4 White]) (exampleRoom noEnd))) \<and>
   \<not> going (whiteTimer (run noEnd (kickoff @ [MakeMove e2e4 White]) (exampleRoom noEnd))) \<and>
   going (whiteTimer (snd (setUpGameBeforeStart noEnd readyRoom))) \<and>
   \<not> going (blackTimer (snd (setUpGameBeforeStart noEnd readyRoom))) \<and>
   going (blackTimer (snd (handleMove noEnd e2e4 White startedRoom))) \<and>
   \<not> going (whiteTimer (snd (handleMove noEnd e2e4 White startedRoom)))"
proof -
  have a: "going (blackTimer (run noEnd (kickoff @ [MakeMove e2e4 White]) (exampleRoom noEnd)))"
    by code_simp
  have b: "fst (setUpGameBeforeStart noEnd readyRoom) = None \<and> timer (gameRules readyRoom)"
    by code_simp
  have c: "fst (handleMove noEnd e2e4 White startedRoom) = None \<and> timer (gameRules startedRoom)"
    by code_simp
  have d: "going (blackTimer (snd (handleMove noEnd e2e4 White startedRoom)))"
    by code_simp
  show ?thesis
    using clocks_never_run_together [where E = noEnd and evs = "kickoff @ [MakeMove e2e4 White]"
        and host = "\<lparr>userId = 1\<rparr>" and rules = timedRules and ident = "Some ''room''"
        and ?rnd1.0 = "''r1''" and ?rnd2.0 = "''r2''" and now = 0 and rc = Black
        and r = readyRoom and move = e2e4 and c = White and r' = startedRoom]
      a b c d
    by (simp add: exampleRoom_def)
qed

section \<open>Checkmate, stalemate and draw\<close>

text \<open>
  Claim C4. In a room reached from a new room, after an accepted move: if the oracle
  reports checkmate, the game is finished with resolution \<^verbatim>\<open>Checkmate\<close> and the winner is
  the player of the color opposite to the color to move, which is the mover when the
  oracle has passed the turn on; if it reports stalemate or another draw, the game is
  finished with that resolution and without a winner.
\<close>

theorem isFinishCond_winner:
  assumes "fst (handleMove E move c (run E evs (ChessServerRoom_new E host rules ident rnd1 rnd2 now rc))) = None"
  shows "let r' = snd (handleMove E move c
                   (run E evs (ChessServerRoom_new E host rules ident rnd1 rnd2 now rc)))
         in (chess_isCheckmate E (chess r') \<longrightarrow>
               status r' = Finished \<and> resolution r' = Some Checkmate \<and>
               winnerID r' = (if chess_turn E (chess r') = White then blackPlayerID r'
                              else whitePlayerID r') \<and>
               (chess_turn E (chess r') = swapColor c \<longrightarrow>
                  winnerID r' = (if c = White then whitePlayerID r' else blackPlayerID r'))) \<and>
            (\<not> chess_isCheckmate E (chess r') \<and> chess_isStalemate E (chess r') \<longrightarrow>
               status r' = Finished \<and> resolution r' = Some Stalemate \<and> winnerID r' = None) \<and>
            (\<not> chess_isCheckmate E (chess r') \<and> \<not> chess_isStalemate E (chess r') \<and>
             chess_isDraw E (chess r') \<longrightarrow>
               status r' = Finished \<and> resolution r' = Some Draw \<and> winnerID r' = None)"
proof -
  let ?r = "run E evs (ChessServerRoom_new E host rules ident rnd1 rnd2 now rc)"
  obtain pos where s: "status ?r = InProgress"
    and e: "snd (handleMove E move c ?r) = afterMove E (snd (switchClocks E move (?r\<lparr>chess := pos\<rparr>)))"
    using handleMove_accepted[OF assms] by blast
  let ?r1 = "snd (switchClocks E move (?r\<lparr>chess := pos\<rparr>))"
  have "noWinnerYet ?r" by (rule reachable_noWinnerYet)
  then have w: "winnerID ?r1 = None"
    using s by (simp add: noWinnerYet_def switchClocks_fields)
  have c: "chess (afterMove E ?r1) = chess ?r1" by (simp add: afterMove_players)
  show ?thesis
    unfolding e Let_def c
    using w afterMove_end[of E ?r1]
    by (auto simp add: isFinishCond_fst isFinishCond_result afterMove_players swapColor_def)
qed

theorem isFinishCond_winner_witness:
  "status (run mateEnv (kickoff @ [MakeMove e2e4 White, MakeMove e7e5 Black]) (exampleRoom mateEnv))
     = Finished \<and>
   resolution (run mateEnv (kickoff @ [MakeMove e2e4 White, MakeMove e7e5 Black]) (exampleRoom mateEnv))
     = Some Checkmate \<and>
   winnerID (run mateEnv (kickoff @ [MakeMove e2e4 White, MakeMove e7e5 Black]) (exampleRoom mateEnv))
     = Some 2 \<and>
   blackPlayerID (run mateEnv (kickoff @ [MakeMove e2e4 White, MakeMove e7e5 Black]) (exampleRoom mateEnv))
     = Some 2 \<and>
   resolution (run staleEnv (kickoff @ [MakeMove e2e4 White]) (exampleRoom staleEnv))
     = Some Stalemate \<and>
   winnerID (run staleEnv (kickoff @ [MakeMove e2e4 White]) (exampleRoom staleEnv)) = None"
proof -
  let ?m = "run mateEnv (kickoff @ [MakeMove e2e4 White]) (exampleRoom mateEnv)"
  let ?s = "run staleEnv kickoff (exampleRoom staleEnv)"
  have m: "fst (handleMove mateEnv e7e5 Black ?m) = None"
    unfolding exampleRoom_def by code_simp
  have m1: "chess_isCheckmate mateEnv (chess (snd (handleMove mateEnv e7e5 Black ?m)))"
    "chess_turn mateEnv (chess (snd (handleMove mateEnv e7e5 Black ?m))) = White"
    "blackPlayerID (snd (handleMove mateEnv e7e5 Black ?m)) = Some 2"
    by code_simp+
  have s: "fst (handleMove staleEnv e2e4 White ?s) = None"
    unfolding exampleRoom_def by code_simp
  have s1: "\<not> chess_isCheckmate staleEnv (chess (snd (handleMove staleEnv e2e4 White ?s)))"
    "chess_isStalemate staleEnv (chess (snd (handleMove staleEnv e2e4 White ?s)))"
    by code_simp+
  have r1: "run mateEnv (kickoff @ [MakeMove e2e4 White, MakeMove e7e5 Black]) (exampleRoom mateEnv)
      = snd (handleMove mateEnv e7e5 Black ?m)"
    by code_simp
  have r2: "run staleEnv (kickoff @ [MakeMove e2e4 White]) (exampleRoom staleEnv)
      = snd (handleMove staleEnv e2e4 White ?s)"
    by code_simp
  show ?thesis
    unfolding r1 r2
    using isFinishCond_winner [OF m [unfolded exampleRoom_def]]
      isFinishCond_winner [OF s [unfolded exampleRoom_def]] m1 s1
    by (simp add: Let_def exampleRoom_def)
qed

section \<open>The winner of a game without a winner\<close>

lemma super_checkGameEnd_winnerId:
  "winnerId (snd (super_checkGameEnd E r)) =
     (if fst (isFinishCond E r) then
        (case winnerID (snd (isFinishCond E r)) of
           None \<Rightarrow> winnerId r
         | Some i \<Rightarrow> if i = 0 then winnerId r else i)
      else winnerId r)"
proof (cases "fst (isFinishCond E r)")
  case True
  then show ?thesis by (simp add: super_checkGameEnd_finished)
next
  case False
  then show ?thesis by (simp add: super_checkGameEnd_def split_beta isFinishCond_fields)
qed

text \<open>
  Claim C10. \<open>winnerId\<close> is 0 in a new room, and \<^verbatim>\<open>ServerRoom.checkGameEnd\<close> changes it
  only when the game has ended with a winner id that is defined and not 0. So after an
  accepted move that ends the game in stalemate or a draw, \<open>winnerId\<close> is still 0, and
  \<^verbatim>\<open>getWinnerId\<close> reads the session of user 0: it fails exactly when the room has no such
  session.
\<close>

theorem getWinnerId_without_winner:
  assumes "fst (handleMove E move c (run E evs (ChessServerRoom_new E host rules ident rnd1 rnd2 now rc))) = None"
    and "\<not> chess_isCheckmate E (chess (snd (handleMove E move c
            (run E evs (ChessServerRoom_new E host rules ident rnd1 rnd2 now rc)))))"
    and "chess_isStalemate E (chess (snd (handleMove E move c
            (run E evs (ChessServerRoom_new E host rules ident rnd1 rnd2 now rc))))) \<or>
         chess_isDraw E (chess (snd (handleMove E move c
            (run E evs (ChessServerRoom_new E host rules ident rnd1 rnd2 now rc)))))"
  shows "let r' = snd (handleMove E move c
                   (run E evs (ChessServerRoom_new E host rules ident rnd1 rnd2 now rc)))
         in winnerId (ChessServerRoom_new E host rules ident rnd1 rnd2 now rc) = 0 \<and>
            winnerId (snd (super_checkGameEnd E x)) =
              (if fst (isFinishCond E x) then
                 (case winnerID (snd (isFinishCond E x)) of
                    None \<Rightarrow> winnerId x
                  | Some i \<Rightarrow> if i = 0 then winnerId x else i)
               else winnerId x) \<and>
            status r' = Finished \<and> winnerID r' = None \<and> winnerId r' = 0 \<and>
            getWinnerId r' =
              (case get_session r' 0 of None \<Rightarrow> Inl TypeError | Some s \<Rightarrow> Inr (user (member s))) \<and>
            (getWinnerId r' = Inl TypeError \<longleftrightarrow> get_session r' 0 = None)"
proof -
  let ?r = "run E evs (ChessServerRoom_new E host rules ident rnd1 rnd2 now rc)"
  obtain pos where s: "status ?r = InProgress"
    and e: "snd (handleMove E move c ?r) = afterMove E (snd (switchClocks E move (?r\<lparr>chess := pos\<rparr>)))"
    using handleMove_accepted[OF assms(1)] by blast
  let ?r1 = "snd (switchClocks E move (?r\<lparr>chess := pos\<rparr>))"
  have "noWinnerYet ?r" by (rule reachable_noWinnerYet)
  then have w: "winnerID ?r1 = None" "winnerId ?r1 = 0"
    using s by (simp_all add: noWinnerYet_def switchClocks_fields)
  have c: "chess (afterMove E ?r1) = chess ?r1" by (simp add: afterMove_players)
  have f: "fst (isFinishCond E ?r1)"
    using assms(3) unfolding e c by (auto simp: isFinishCond_fst)
  have m: "\<not> chess_isCheckmate E (chess ?r1)"
    using assms(2) unfolding e c .
  have a: "status (afterMove E ?r1) = Finished" "winnerID (afterMove E ?r1) = None"
    "winnerId (afterMove E ?r1) = 0"
    using afterMove_end[OF f] w m by (simp_all add: isFinishCond_result)
  have g: "getWinnerId (afterMove E ?r1) =
      (case get_session (afterMove E ?r1) 0 of None \<Rightarrow> Inl TypeError
       | Some s \<Rightarrow> Inr (user (member s)))"
    by (simp add: getWinnerId_def a)
  show ?thesis
    unfolding e Let_def
    using a g
    by (simp add: new_room_fields super_checkGameEnd_winnerId split: option.splits)
qed

theorem getWinnerId_without_winner_witness:
  "status (run staleEnv (kickoff @ [MakeMove e2e4 White]) (exampleRoom staleEnv)) = Finished \<and>
   winnerId (run staleEnv (kickoff @ [MakeMove e2e4 White]) (exampleRoom staleEnv)) = 0 \<and>
   getWinnerId (run staleEnv (kickoff @ [MakeMove e2e4 White]) (exampleRoom staleEnv))
     = Inl TypeError"
proof -
  let ?s = "run staleEnv kickoff (exampleRoom staleEnv)"
  have s: "fst (handleMove staleEnv e2e4 White ?s) = None"
    unfolding exampleRoom_def by code_simp
  have s1: "\<not> chess_isCheckmate staleEnv (chess (snd (handleMove staleEnv e2e4 White ?s)))"
    "chess_isStalemate staleEnv (chess (snd (handleMove staleEnv e2e4 White ?s))) \<or>
     chess_isDraw staleEnv (chess (snd (handleMove staleEnv e2e4 White ?s)))"
    unfolding exampleRoom_def by code_simp+
  have n: "get_session (snd (handleMove staleEnv e2e4 White ?s)) 0 = None"
    by code_simp
  have r2: "run staleEnv (kickoff @ [MakeMove e2e4 White]) (exampleRoom staleEnv)
      = snd (handleMove staleEnv e2e4 White ?s)"
    by code_simp
  show ?thesis
    unfolding r2
    using getWinnerId_without_winner [OF s [unfolded exampleRoom_def] s1 [unfolded exampleRoom_def]] n
    by (simp add: Let_def exampleRoom_def)
qed

section \<open>The choice of the opponent\<close>

lemma sorted_last_max:
  "xs \<noteq> [] \<Longrightarrow> sorted (map f xs) \<Longrightarrow> x \<in> set xs \<Longrightarrow> f x \<le> f (last xs)"
  by (induction xs) (auto split: if_splits)

lemma map_of_update_session_same:
  "distinct (map fst xs) \<Longrightarrow> (k, s) \<in> set xs \<Longrightarrow> map_of (update_session k f xs) k = Some (f s)"
  by (induction xs) (auto simp: update_session_def rev_image_eqI)

lemma map_of_update_session_other:
  "k' \<noteq> k \<Longrightarrow> map_of (update_session k f xs) k' = map_of xs k'"
  by (induction xs) (auto simp: update_session_def)

lemma recipients_promote: "recipients (update_session k (promote c) xs) = recipients xs"
proof (induction xs)
  case Nil
  show ?case by (simp add: update_session_def)
next
  case (Cons x xs)
  obtain k' s where x: "x = (k', s)" by (cases x)
  have "socket (promote c s) = socket s" by (simp add: promote_def)
  with Cons show ?case
    by (cases "k' = k")
      (simp_all add: x update_session_def recipients_def List.map_filter_simps
        split: option.splits)
qed

lemma set_nonPlayerSessions:
  "set (nonPlayerSessions r) = {x \<in> set (sessions r). candidate x}"
  by (auto simp: nonPlayerSessions_def connectedSessions_def candidate_def)

lemma sorted_nonPlayerSessions:
  "sorted (map (\<lambda>(k, s). - joined s) (nonPlayerSessions r))"
  by (simp add: nonPlayerSessions_def sorted_sort_key)

lemma selectedSession_earliest:
  assumes "x \<in> set (sessions r)" and "candidate x"
  obtains k s where "selectedSession r = Some (k, s)" and "(k, s) \<in> set (sessions r)"
    and "candidate (k, s)"
    and "\<And>y. y \<in> set (sessions r) \<Longrightarrow> candidate y \<Longrightarrow> joined s \<le> joined (snd y)"
proof -
  have ne: "nonPlayerSessions r \<noteq> []"
    using assms set_nonPlayerSessions[of r] by auto
  obtain k s where ks: "last (nonPlayerSessions r) = (k, s)"
    by (cases "last (nonPlayerSessions r)")
  have sel: "selectedSession r = Some (k, s)"
    using ne ks by (cases "nonPlayerSessions r") (simp_all add: selectedSession_def)
  have "(k, s) \<in> set (nonPlayerSessions r)"
    using last_in_set[OF ne] ks by simp
  then have mem: "(k, s) \<in> set (sessions r)" and cand: "candidate (k, s)"
    by (simp_all add: set_nonPlayerSessions)
  have "joined s \<le> joined (snd y)" if "y \<in> set (sessions r)" and "candidate y" for y
  proof -
    have "y \<in> set (nonPlayerSessions r)"
      using that by (simp add: set_nonPlayerSessions)
    from sorted_last_max[OF ne sorted_nonPlayerSessions this]
    show ?thesis by (simp add: ks split_beta)
  qed
  with sel mem cand show thesis by (rule that)
qed

text \<open>
  Claim C1, as stated, has the opponent be the connected non-player who joined last. In
  the room below users 2 and 3 are the connected non-players, joined at 10 and 20, and
  the one chosen and made the black player is user 2, who joined first.
\<close>

theorem selectOpponent_latest_counterexample:
  "map (\<lambda>(k, s). (k, joined s))
     (filter (\<lambda>(k, s). connected (state (member s)) \<and> \<not> isPlayer (state (member s)))
        (sessions readyRoom)) = [(2, 10), (3, 20)] \<and>
   map_option (\<lambda>(k, s). (k, joined s)) (selectedSession readyRoom) = Some (2, 10) \<and>
   blackPlayerID (snd (selectOpponent readyRoom)) = Some 2 \<and>
   blackPlayerID startedRoom = Some 2"
  by code_simp

text \<open>
  Claim C1, amended. Where the session object has one entry per key, the host has a
  color and some connected member is not a player, \<^verbatim>\<open>selectOpponent\<close> chooses a connected
  non-player whose join time is the earliest among the connected non-players, makes
  that session a player with the color opposite to the host's, records its user as the
  player of that color, leaves every other session as it was, and sends the member
  update to every session that has a socket.
\<close>

theorem selectOpponent_earliest:
  assumes "distinct (map fst (sessions r))"
    and "get_session r (hostID r) = Some h"
    and "color (state (member h)) = Some hc"
    and "x \<in> set (sessions r)"
    and "connected (state (member (snd x))) \<and> \<not> isPlayer (state (member (snd x)))"
  shows "\<exists>k s. selectedSession r = Some (k, s) \<and>
           (k, s) \<in> set (sessions r) \<and>
           connected (state (member s)) \<and> \<not> isPlayer (state (member s)) \<and>
           (\<forall>(k', s') \<in> set (sessions r).
              connected (state (member s')) \<and> \<not> isPlayer (state (member s'))
                \<longrightarrow> joined s \<le> joined s') \<and>
           fst (selectOpponent r) = None \<and>
           get_session (snd (selectOpponent r)) k =
             Some (s\<lparr>member := (member s)\<lparr>state :=
                     (state (member s))\<lparr>isPlayer := True, color := Some (swapColor hc)\<rparr>\<rparr>\<rparr>) \<and>
           (\<forall>k'. k' \<noteq> k \<longrightarrow> get_session (snd (selectOpponent r)) k' = get_session r k') \<and>
           (if swapColor hc = White
            then whitePlayerID (snd (selectOpponent r)) = Some (userId (user (member s))) \<and>
                 blackPlayerID (snd (selectOpponent r)) = blackPlayerID r
            else blackPlayerID (snd (selectOpponent r)) = Some (userId (user (member s))) \<and>
                 whitePlayerID (snd (selectOpponent r)) = whitePlayerID r) \<and>
           sent (snd (selectOpponent r)) =
             sent r @
             map (\<lambda>sock. (sock, MemberUpdate (userId (user (member s)))
                                   ((state (member s))\<lparr>isPlayer := True,
                                                        color := Some (swapColor hc)\<rparr>)))
               (recipients (sessions r))"
proof -
  have cx: "candidate x" using assms(5) by (simp add: candidate_def)
  obtain k s where sel: "selectedSession r = Some (k, s)"
    and mem: "(k, s) \<in> set (sessions r)"
    and cand: "candidate (k, s)"
    and least: "\<And>y. y \<in> set (sessions r) \<Longrightarrow> candidate y \<Longrightarrow> joined s \<le> joined (snd y)"
    using selectedSession_earliest[OF assms(4) cx] by blast
  let ?c = "swapColor hc"
  let ?r1 = "r\<lparr>sessions := update_session k (promote ?c) (sessions r)\<rparr>"
  let ?r2 = "if ?c = White then ?r1\<lparr>whitePlayerID := Some (userId (user (member s)))\<rparr>
             else ?r1\<lparr>blackPlayerID := Some (userId (user (member s)))\<rparr>"
  have so: "selectOpponent r =
      (None, broadcast (MemberUpdate (userId (user (member s))) (state (member (promote ?c s)))) ?r2)"
    using assms(2,3) sel by (simp add: selectOpponent_def opponentColor_def Let_def)
  have p: "promote ?c s = s\<lparr>member := (member s)\<lparr>state :=
                     (state (member s))\<lparr>isPlayer := True, color := Some ?c\<rparr>\<rparr>\<rparr>"
    by (simp add: promote_def)
  have g1: "get_session (snd (selectOpponent r)) k = Some (promote ?c s)"
    unfolding so using map_of_update_session_same[OF assms(1) mem, of "promote ?c"]
    by (auto simp add: get_session_def broadcast_def)
  have g2: "get_session (snd (selectOpponent r)) k' = get_session r k'" if "k' \<noteq> k" for k'
    unfolding so using map_of_update_session_other[OF that, of "promote ?c" "sessions r"]
    by (auto simp add: get_session_def broadcast_def)
  have ids: "if ?c = White
            then whitePlayerID (snd (selectOpponent r)) = Some (userId (user (member s))) \<and>
                 blackPlayerID (snd (selectOpponent r)) = blackPlayerID r
            else blackPlayerID (snd (selectOpponent r)) = Some (userId (user (member s))) \<and>
                 whitePlayerID (snd (selectOpponent r)) = whitePlayerID r"
    unfolding so by (simp add: broadcast_def)
  have snt: "sent (snd (selectOpponent r)) =
             sent r @
             map (\<lambda>sock. (sock, MemberUpdate (userId (user (member s)))
                                   ((state (member s))\<lparr>isPlayer := True, color := Some ?c\<rparr>)))
               (recipients (sessions r))"
    unfolding so by (simp add: broadcast_def recipients_promote promote_def)
  have l: "\<forall>(k', s') \<in> set (sessions r).
              connected (state (member s')) \<and> \<not> isPlayer (state (member s'))
                \<longrightarrow> joined s \<le> joined s'"
    using least by (auto simp: candidate_def)
  have c: "connected (state (member s)) \<and> \<not> isPlayer (state (member s))"
    using cand by (simp add: candidate_def)
  have f: "fst (selectOpponent r) = None" by (simp add: so)
  show ?thesis
    using sel mem c l f g1 g2 ids snt unfolding p by blast
qed

theorem selectOpponent_earliest_witness:
  "\<exists>k s. selectedSession readyRoom = Some (k, s) \<and> k = 2 \<and> joined s = 10 \<and>
         fst (selectOpponent readyRoom) = None \<and>
         map_option (\<lambda>s. state (member s)) (get_session (snd (selectOpponent readyRoom)) k) =
           Some \<lparr>connected = True, isPlayer = True, color = Some Black\<rparr> \<and>
         blackPlayerID (snd (selectOpponent readyRoom)) = Some 2"
proof -
  let ?h = "the (get_session readyRoom (hostID readyRoom))"
  let ?x = "sessions readyRoom ! 2"
  have a: "distinct (map fst (sessions readyRoom))" by code_simp
  have b: "get_session readyRoom (hostID readyRoom) = Some ?h" by code_simp
  have c: "color (state (member ?h)) = Some White" by code_simp
  have d: "?x \<in> set (sessions readyRoom)" by code_simp
  have e: "connected (state (member (snd ?x))) \<and> \<not> isPlayer (state (member (snd ?x)))"
    by code_simp
  have f: "map_option (\<lambda>(k, s). (k, joined s, userId (user (member s)), state (member s)))
             (selectedSession readyRoom) =
           Some (2, 10, 2, \<lparr>connected = True, isPlayer = False, color = None\<rparr>)"
    by code_simp
  show ?thesis
    using selectOpponent_earliest [OF a b c d e] f
    by (auto simp: swapColor_def)
qed

section \<open>The increment of the clocks\<close>

lemma afterMove_InProgress:
  assumes "status (afterMove E r) = InProgress"
  shows "afterMove E r = r"
proof (cases "fst (isFinishCond E r)")
  case True
  from afterMove_end(1)[OF True] assms show ?thesis by simp
next
  case False
  then show ?thesis by (simp add: afterMove_def isFinishCond_not)
qed

lemma switchClocks_values:
  assumes "timer (gameRules r)" and "whiteTimer r = Some wt" and "blackTimer r = Some bt"
  shows "whiteTimer (snd (switchClocks E move r)) =
           Some (if chess_turn E (chess r) = White then start None wt
                 else addTime (timerIncrement (gameRules r) * 1000) (pause wt))"
    and "blackTimer (snd (switchClocks E move r)) =
           Some (if chess_turn E (chess r) = White
                 then addTime (timerIncrement (gameRules r) * 1000) (pause bt)
                 else start None bt)"
  using assms
  by (simp_all add: switchClocks_def onWhiteTimer_def onBlackTimer_def effect_defs)

lemma handleMove_continues:
  assumes "fst (handleMove E move c r) = None"
    and "status (snd (handleMove E move c r)) = InProgress"
  obtains pos where "chess_move E move (chess r) = Some pos"
    and "snd (handleMove E move c r) = snd (switchClocks E move (r\<lparr>chess := pos\<rparr>))"
proof -
  obtain pos where p: "chess_move E move (chess r) = Some pos"
    and e: "snd (handleMove E move c r) = afterMove E (snd (switchClocks E move (r\<lparr>chess := pos\<rparr>)))"
    using handleMove_accepted[OF assms(1)] by blast
  have "snd (handleMove E move c r) = snd (switchClocks E move (r\<lparr>chess := pos\<rparr>))"
    using afterMove_InProgress[of E "snd (switchClocks E move (r\<lparr>chess := pos\<rparr>))"] assms(2) e
    by simp
  with p show thesis by (rule that)
qed

text \<open>
  Claim C3, as stated, has no increment applied at White's first move and White's clock
  gain it after Black's move. In the started room, with 300 seconds on both clocks and
  an increment of 5 seconds, White's clock shows 305 seconds as soon as White has moved
  and the same after Black's move, when it is Black's clock that has gained 5 seconds.
\<close>

theorem handleMove_increment_counterexample:
  "timer (gameRules startedRoom) \<and> timerIncrement (gameRules startedRoom) = 5 \<and>
   whiteTimer startedRoom = Some \<lparr>isGoing = True, timeLeft = 300000\<rparr> \<and>
   blackTimer startedRoom = Some \<lparr>isGoing = False, timeLeft = 300000\<rparr> \<and>
   fst (handleMove noEnd e2e4 White startedRoom) = None \<and>
   whiteTimer (run noEnd [MakeMove e2e4 White] startedRoom)
     = Some \<lparr>isGoing = False, timeLeft = 305000\<rparr> \<and>
   blackTimer (run noEnd [MakeMove e2e4 White] startedRoom)
     = Some \<lparr>isGoing = True, timeLeft = 300000\<rparr> \<and>
   whiteTimer (run noEnd [MakeMove e2e4 White, MakeMove e7e5 Black] startedRoom)
     = Some \<lparr>isGoing = True, timeLeft = 305000\<rparr> \<and>
   blackTimer (run noEnd [MakeMove e2e4 White, MakeMove e7e5 Black] startedRoom)
     = Some \<lparr>isGoing = False, timeLeft = 305000\<rparr>"
  by code_simp

text \<open>
  Claim C3, amended. In a game with the timer, where White's clock runs and Black's does
  not: an accepted move by White that passes the turn to Black and does not end the
  game stops White's clock, adds the increment to White's clock and starts Black's
  clock with its time unchanged; the accepted move by Black that follows, passing the
  turn back without ending the game, stops Black's clock, adds the increment to
  Black's clock and restarts White's clock with the time it had.
\<close>

theorem handleMove_increment:
  assumes "timer (gameRules r)" and "whiteTimer r = Some wt" and "blackTimer r = Some bt"
    and "isGoing wt" and "\<not> isGoing bt"
    and "fst (handleMove E m1 White r) = None"
    and "chess_turn E (chess (snd (handleMove E m1 White r))) = Black"
    and "status (snd (handleMove E m1 White r)) = InProgress"
    and "fst (handleMove E m2 Black (snd (handleMove E m1 White r))) = None"
    and "chess_turn E (chess (snd (handleMove E m2 Black (snd (handleMove E m1 White r))))) = White"
    and "status (snd (handleMove E m2 Black (snd (handleMove E m1 White r)))) = InProgress"
  shows "let inc = timerIncrement (gameRules r) * 1000;
             r1 = snd (handleMove E m1 White r);
             r2 = snd (handleMove E m2 Black r1)
         in whiteTimer r1 = Some \<lparr>isGoing = False, timeLeft = timeLeft wt + inc\<rparr> \<and>
            blackTimer r1 = Some \<lparr>isGoing = True, timeLeft = timeLeft bt\<rparr> \<and>
            whiteTimer r2 = Some \<lparr>isGoing = True, timeLeft = timeLeft wt + inc\<rparr> \<and>
            blackTimer r2 = Some \<lparr>isGoing = False, timeLeft = timeLeft bt + inc\<rparr>"
proof -
  let ?inc = "timerIncrement (gameRules r) * 1000"
  let ?r1 = "snd (handleMove E m1 White r)"
  let ?r2 = "snd (handleMove E m2 Black ?r1)"
  obtain p1 where e1: "?r1 = snd (switchClocks E m1 (r\<lparr>chess := p1\<rparr>))"
    using handleMove_continues[OF assms(6,8)] by blast
  have t1: "chess_turn E p1 = Black"
    using assms(7) unfolding e1 by (simp add: switchClocks_fields)
  have w1: "whiteTimer ?r1 = Some \<lparr>isGoing = False, timeLeft = timeLeft wt + ?inc\<rparr>"
    and b1: "blackTimer ?r1 = Some \<lparr>isGoing = True, timeLeft = timeLeft bt\<rparr>"
    unfolding e1
    using switchClocks_values[of "r\<lparr>chess := p1\<rparr>" wt bt E m1] assms(1-5) t1
    by (simp_all add: timer_defs)
  have g1: "gameRules ?r1 = gameRules r"
    unfolding e1 by (simp add: switchClocks_fields)
  obtain p2 where e2: "?r2 = snd (switchClocks E m2 (?r1\<lparr>chess := p2\<rparr>))"
    using handleMove_continues[OF assms(9,11)] by blast
  have t2: "chess_turn E p2 = White"
    using assms(10) unfolding e2 by (simp add: switchClocks_fields)
  have w2: "whiteTimer ?r2 = Some \<lparr>isGoing = True, timeLeft = timeLeft wt + ?inc\<rparr>"
    and b2: "blackTimer ?r2 = Some \<lparr>isGoing = False, timeLeft = timeLeft bt + ?inc\<rparr>"
    unfolding e2
    using switchClocks_values[of "?r1\<lparr>chess := p2\<rparr>" _ _ E m2] assms(1) t2 w1 b1 g1
    by (simp_all add: timer_defs)
  show ?thesis
    using w1 b1 w2 b2 by (simp add: Let_def)
qed

theorem handleMove_increment_witness:
  "whiteTimer (snd (handleMove noEnd e2e4 White startedRoom))
     = Some \<lparr>isGoing = False, timeLeft = 305000\<rparr> \<and>
   blackTimer (snd (handleMove noEnd e2e4 White startedRoom))
     = Some \<lparr>isGoing = True, timeLeft = 300000\<rparr> \<and>
   whiteTimer (snd (handleMove noEnd e7e5 Black (snd (handleMove noEnd e2e4 White startedRoom))))
     = Some \<lparr>isGoing = True, timeLeft = 305000\<rparr> \<and>
   blackTimer (snd (handleMove noEnd e7e5 Black (snd (handleMove noEnd e2e4 White startedRoom))))
     = Some \<lparr>isGoing = False, timeLeft = 305000\<rparr>"
proof -
  let ?wt = "\<lparr>isGoing = True, timeLeft = 300000\<rparr>"
  let ?bt = "\<lparr>isGoing = False, timeLeft = 300000\<rparr>"
  let ?r1 = "snd (handleMove noEnd e2e4 White startedRoom)"
  let ?r2 = "snd (handleMove noEnd e7e5 Black ?r1)"
  have h1: "timer (gameRules startedRoom)" by code_simp
  have h2: "whiteTimer startedRoom = Some ?wt" by code_simp
  have h3: "blackTimer startedRoom = Some ?bt" by code_simp
  have h4: "isGoing ?wt" by simp
  have h5: "\<not> isGoing ?bt" by simp
  have h6: "fst (handleMove noEnd e2e4 White startedRoom) = None" by code_simp
  have h7: "chess_turn noEnd (chess ?r1) = Black" by code_simp
  have h8: "status ?r1 = InProgress" by code_simp
  have h9: "fst (handleMove noEnd e7e5 Black ?r1) = None" by code_simp
  have h10: "chess_turn noEnd (chess ?r2) = White" by code_simp
  have h11: "status ?r2 = InProgress" by code_simp
  have i: "timerIncrement (gameRules startedRoom) = 5" by code_simp
  show ?thesis
    using handleMove_increment [OF h1 h2 h3 h4 h5 h6 h7 h8 h9 h10 h11] i
    by (simp add: Let_def)
qed

end
